theory Spec2Isabelle
  imports Main
begin

section \<open>JavaScript values and strings\<close>

text \<open>
  The gateway handles untyped JSON-like data (\<^verbatim>\<open>any\<close>): templates, request bodies and
  provider responses. A value is one of the JavaScript shapes the code distinguishes with
  \<^verbatim>\<open>typeof\<close>, \<^verbatim>\<open>Array.isArray\<close> and comparison with \<^verbatim>\<open>undefined\<close>/\<^verbatim>\<open>null\<close>. An object is the list of
  its own enumerable properties in enumeration order, one entry per key. No function of the
  gateway computes with a number; numbers are integers here and only their truthiness and
  their decimal printing are used. \<open>Inherited n\<close> is the value of the property \<open>n\<close> that every
  plain object inherits from \<^verbatim>\<open>Object.prototype\<close>: a built-in function, and for \<^verbatim>\<open>__proto__\<close>
  the prototype object itself, which has no enumerable property.
\<close>

datatype js_value =
    Undefined
  | Null
  | Bool bool
  | Num int
  | Str string
  | Arr "js_value list"
  | Obj "(string \<times> js_value) list"
  | Inherited string

text \<open>What the code throws or catches: \<^verbatim>\<open>new Error(message)\<close>, the runtime's own errors,
  and the event a failing \<^verbatim>\<open>FileReader\<close> rejects with, which has no \<^verbatim>\<open>message\<close>; \<open>message\<close>
  is what the template literal \<^verbatim>\<open>${e.message}\<close> prints.\<close>

datatype error =
    Error string
  | TypeError string
  | SyntaxError string
  | Event

fun message :: "error \<Rightarrow> string" where
  "message (Error m) = m"
| "message (TypeError m) = m"
| "message (SyntaxError m) = m"
| "message Event = ''undefined''"

text \<open>\<^verbatim>\<open>String.prototype.startsWith\<close>, \<^verbatim>\<open>endsWith\<close> and \<^verbatim>\<open>slice(start, end)\<close> with the
  JavaScript reading of negative indices.\<close>

definition startsWith :: "string \<Rightarrow> string \<Rightarrow> bool" where
  "startsWith s p = (take (length p) s = p)"

definition endsWith :: "string \<Rightarrow> string \<Rightarrow> bool" where
  "endsWith s p = (length p \<le> length s \<and> drop (length s - length p) s = p)"

definition slice_index :: "nat \<Rightarrow> int \<Rightarrow> nat" where
  "slice_index len i = (if i < 0 then nat (max 0 (int len + i)) else min (nat i) len)"

definition slice :: "string \<Rightarrow> int \<Rightarrow> int \<Rightarrow> string" where
  "slice s start end =
     (let from = slice_index (length s) start; to = slice_index (length s) end
      in take (to - from) (drop from s))"

text \<open>
  Reading a property of a plain inputs object, \<^verbatim>\<open>inputs[key]\<close>: the object's own property
  when it has one; otherwise what the object inherits from \<^verbatim>\<open>Object.prototype\<close> under that
  name (the standard properties, nothing added to the prototype); otherwise \<^verbatim>\<open>undefined\<close>.
\<close>

type_synonym inputs = "string \<rightharpoonup> js_value"

definition inherited_names :: "string list" where
  "inherited_names =
     [''constructor'', ''hasOwnProperty'', ''isPrototypeOf'', ''propertyIsEnumerable'',
      ''toLocaleString'', ''toString'', ''valueOf'', ''__proto__'', ''__defineGetter__'',
      ''__defineSetter__'', ''__lookupGetter__'', ''__lookupSetter__'']"

definition lookup_input :: "inputs \<Rightarrow> string \<Rightarrow> js_value" where
  "lookup_input inputs key =
     (case inputs key of
        Some v \<Rightarrow> v
      | None \<Rightarrow> if key \<in> set inherited_names then Inherited key else Undefined)"

text \<open>Truthiness, as tested by \<^verbatim>\<open>!x\<close>, \<^verbatim>\<open>x || d\<close> and \<^verbatim>\<open>x && y\<close>.\<close>

fun truthy :: "js_value \<Rightarrow> bool" where
  "truthy Undefined = False"
| "truthy Null = False"
| "truthy (Bool b) = b"
| "truthy (Num n) = (n \<noteq> 0)"
| "truthy (Str s) = (s \<noteq> [])"
| "truthy (Arr xs) = True"
| "truthy (Obj props) = True"
| "truthy (Inherited n) = True"

text \<open>Decimal printing of a number, and the conversion \<^verbatim>\<open>String(x)\<close> that template literals
  and \<^verbatim>\<open>replace\<close> apply to a value that is not a string. A built-in function is printed
  the way the V8 engine prints it, under its own name (the property \<^verbatim>\<open>constructor\<close> holds
  the function \<^verbatim>\<open>Object\<close>).\<close>

fun string_of_nat :: "nat \<Rightarrow> string" where
  "string_of_nat n =
     (if n < 10 then [char_of (48 + n)]
      else string_of_nat (n div 10) @ [char_of (48 + n mod 10)])"

definition string_of_int :: "int \<Rightarrow> string" where
  "string_of_int i = (if i < 0 then CHR ''-'' # string_of_nat (nat (- i)) else string_of_nat (nat i))"

fun join :: "string \<Rightarrow> string list \<Rightarrow> string" where
  "join sep [] = []"
| "join sep [x] = x"
| "join sep (x # y # ys) = x @ sep @ join sep (y # ys)"

fun String :: "js_value \<Rightarrow> string" where
  "String Undefined = ''undefined''"
| "String Null = ''null''"
| "String (Bool b) = (if b then ''true'' else ''false'')"
| "String (Num n) = string_of_int n"
| "String (Str s) = s"
| "String (Arr xs) =
     join '','' (map (\<lambda>x. if x = Undefined \<or> x = Null then [] else String x) xs)"
| "String (Obj props) = ''[object Object]''"
| "String (Inherited n) =
     (if n = ''__proto__'' then ''[object Object]''
      else ''function '' @ (if n = ''constructor'' then ''Object'' else n) @ ''() { [native code] }'')"

text \<open>\<^verbatim>\<open>toLowerCase\<close> on the letters A to Z; every other character is kept. The words the
  code compares with are lower-case ASCII without the letter k, the only ASCII letter that
  a character outside ASCII lowers to.\<close>

definition lower_char :: "char \<Rightarrow> char" where
  "lower_char c =
     (if (65::nat) \<le> of_char c \<and> of_char c \<le> (90::nat) then char_of (of_char c + (32::nat)) else c)"

definition toLowerCase :: "string \<Rightarrow> string" where
  "toLowerCase s = map lower_char s"

text \<open>\<^verbatim>\<open>s.split(sep)\<close> for a one-character separator, and indexing the resulting array,
  which gives \<^verbatim>\<open>undefined\<close> past its end.\<close>

fun split_acc :: "char \<Rightarrow> string \<Rightarrow> string \<Rightarrow> string list" where
  "split_acc sep cur [] = [cur]"
| "split_acc sep cur (c # cs) =
     (if c = sep then cur # split_acc sep [] cs else split_acc sep (cur @ [c]) cs)"

definition split :: "string \<Rightarrow> char \<Rightarrow> string list" where
  "split s sep = split_acc sep [] s"

definition at_index :: "string list \<Rightarrow> nat \<Rightarrow> js_value" where
  "at_index xs i = (if i < length xs then Str (xs ! i) else Undefined)"

text \<open>
  \<^verbatim>\<open>s.replace(pattern, replacement)\<close> with a string pattern: only the first occurrence of
  the pattern is replaced, and the replacement text is expanded by the language's
  substitution rules (\<^verbatim>\<open>$$\<close>, \<^verbatim>\<open>$&\<close>, the text before and the text after the match); with no
  capture groups every other use of the dollar sign stands for itself.
\<close>

fun split_first :: "string \<Rightarrow> string \<Rightarrow> (string \<times> string) option" where
  "split_first p [] = (if p = [] then Some ([], []) else None)"
| "split_first p (c # cs) =
     (if startsWith (c # cs) p then Some ([], drop (length p) (c # cs))
      else map_option (\<lambda>(before, after). (c # before, after)) (split_first p cs))"

fun getSubstitution :: "string \<Rightarrow> string \<Rightarrow> string \<Rightarrow> string \<Rightarrow> string" where
  "getSubstitution matched before after [] = []"
| "getSubstitution matched before after [c] = [c]"
| "getSubstitution matched before after (c # d # r) =
     (if c = CHR ''$'' \<and> d = CHR ''$'' then CHR ''$'' # getSubstitution matched before after r
      else if c = CHR ''$'' \<and> d = CHR ''&'' then matched @ getSubstitution matched before after r
      else if c = CHR ''$'' \<and> d = CHR 0x60 then before @ getSubstitution matched before after r
      else if c = CHR ''$'' \<and> d = CHR 0x27 then after @ getSubstitution matched before after r
      else c # getSubstitution matched before after (d # r))"

definition replace :: "string \<Rightarrow> string \<Rightarrow> string \<Rightarrow> string" where
  "replace s pattern replacement =
     (case split_first pattern s of
        None \<Rightarrow> s
      | Some (before, after) \<Rightarrow>
          before @ getSubstitution pattern before after replacement @ after)"

text \<open>
  \<^verbatim>\<open>s.replace(/\{\{(\w+)\}\}/g, f)\<close>: every token of the form two opening braces, one or more
  word characters, two closing braces is replaced by what the function \<open>f\<close> returns
  for the word; scanning goes on after the token and the inserted text is not scanned again.
  The counter is the number of characters of a matched token still to be skipped.
\<close>

definition is_word_char :: "char \<Rightarrow> bool" where
  "is_word_char c =
     (let n = (of_char c :: nat)
      in (48 \<le> n \<and> n \<le> 57) \<or> (65 \<le> n \<and> n \<le> 90) \<or> (97 \<le> n \<and> n \<le> 122) \<or> n = 95)"

definition match_token :: "string \<Rightarrow> string option" where
  "match_token s =
     (if startsWith s ''{{'' then
        (let word = takeWhile is_word_char (drop 2 s)
         in if word \<noteq> [] \<and> startsWith (drop (2 + length word) s) ''}}'' then Some word else None)
      else None)"

fun replace_tokens :: "(string \<Rightarrow> string) \<Rightarrow> nat \<Rightarrow> string \<Rightarrow> string" where
  "replace_tokens f skip [] = []"
| "replace_tokens f (Suc skip) (c # cs) = replace_tokens f skip cs"
| "replace_tokens f 0 (c # cs) =
     (case match_token (c # cs) of
        Some word \<Rightarrow> f word @ replace_tokens f (length word + 3) cs
      | None \<Rightarrow> c # replace_tokens f 0 cs)"

section \<open>The payload constructor\<close>

text \<open>
  \<^verbatim>\<open>constructPayload(mapping, inputs)\<close> of \<^verbatim>\<open>services/modelGateway.ts\<close>: the branches in
  the order of the source (string, array, non-null object, anything else). In the object
  branch the result starts as \<^verbatim>\<open>{}\<close> and is filled by \<^verbatim>\<open>result[key] = ...\<close>; for the key
  \<^verbatim>\<open>__proto__\<close> that assignment runs the inherited setter and creates no property, so the
  result has no entry for it. The prototype object is a non-null object with nothing to
  enumerate; a built-in function is none of the first three shapes.
\<close>

fun constructPayload :: "js_value \<Rightarrow> inputs \<Rightarrow> js_value" where
  "constructPayload (Str mapping) inputs =
     (if startsWith mapping ''{{'' \<and> endsWith mapping ''}}'' then
        (let key = slice mapping 2 (- 2)
         in if lookup_input inputs key \<noteq> Undefined then lookup_input inputs key else Str mapping)
      else Str mapping)"
| "constructPayload (Arr items) inputs = Arr (map (\<lambda>item. constructPayload item inputs) items)"
| "constructPayload (Obj props) inputs =
     Obj (map (\<lambda>kv. (fst kv, constructPayload (snd kv) inputs))
            (filter (\<lambda>kv. fst kv \<noteq> ''__proto__'') props))"
| "constructPayload (Inherited n) inputs = (if n = ''__proto__'' then Obj [] else Inherited n)"
| "constructPayload mapping inputs = mapping"


section \<open>The output extractor\<close>

text \<open>
  Modelled from the spec: \<^verbatim>\<open>get\<close> of the library lodash-es, which \<^verbatim>\<open>resolvePath\<close> calls and
  whose code is not part of the repository. The spec's output extractor resolves a dotted
  and indexed path (plain keys, numeric indices in brackets, chains of both, to any depth)
  against a nested structure and yields \<^verbatim>\<open>undefined\<close> as soon as a segment is missing.
\<close>

fun path_keys_acc :: "string \<Rightarrow> string \<Rightarrow> string list" where
  "path_keys_acc cur [] = (if cur = [] then [] else [cur])"
| "path_keys_acc cur (c # cs) =
     (if c = CHR ''.'' \<or> c = CHR ''['' \<or> c = CHR '']''
      then (if cur = [] then [] else [cur]) @ path_keys_acc [] cs
      else path_keys_acc (cur @ [c]) cs)"

definition path_keys :: "string \<Rightarrow> string list" where
  "path_keys path = path_keys_acc [] path"

definition is_digit :: "char \<Rightarrow> bool" where
  "is_digit c = ((48::nat) \<le> of_char c \<and> of_char c \<le> (57::nat))"

definition array_index :: "string \<Rightarrow> nat option" where
  "array_index key =
     (if key \<noteq> [] \<and> list_all is_digit key \<and> (key = ''0'' \<or> hd key \<noteq> CHR ''0'')
      then Some (foldl (\<lambda>n c. 10 * n + (of_char c - 48)) 0 key)
      else None)"

fun get_key :: "js_value \<Rightarrow> string \<Rightarrow> js_value" where
  "get_key (Obj props) key = (case map_of props key of Some v \<Rightarrow> v | None \<Rightarrow> Undefined)"
| "get_key (Arr xs) key =
     (case array_index key of
        Some i \<Rightarrow> (if i < length xs then xs ! i else Undefined)
      | None \<Rightarrow> Undefined)"
| "get_key v key = Undefined"

fun get_keys :: "js_value \<Rightarrow> string list \<Rightarrow> js_value" where
  "get_keys obj [] = obj"
| "get_keys obj (key # keys) =
     (if obj = Undefined \<or> obj = Null then Undefined else get_keys (get_key obj key) keys)"

definition get :: "js_value \<Rightarrow> string \<Rightarrow> js_value" where
  "get obj path = (if path_keys path = [] then Undefined else get_keys obj (path_keys path))"

definition resolvePath :: "js_value \<Rightarrow> string \<Rightarrow> js_value" where
  "resolvePath obj path = get obj path"

section \<open>Model definitions\<close>

text \<open>
  Modelled from the spec: the declarations \<^verbatim>\<open>AIModelConfig\<close> and \<^verbatim>\<open>APIEndpointDefinition\<close>
  of \<^verbatim>\<open>types.ts\<close>, which is not among the sources. The fields are those of the spec's data
  model, with the optionality the gateway's accesses (\<^verbatim>\<open>config.endpoints?.generate\<close>,
  \<^verbatim>\<open>endpoint.outputMapping?.[...]\<close>, \<^verbatim>\<open>if (endpoint.headers)\<close>) show.
\<close>

record APIEndpointDefinition =
  url :: string
  http_method :: string
  headers :: "(string \<times> string) list option"
  paramMapping :: js_value
  outputMapping :: "(string \<rightharpoonup> string) option"

record Endpoints =
  generate :: APIEndpointDefinition
  status :: "APIEndpointDefinition option"

record AIModelConfig =
  id' :: string
  name :: string
  provider :: string
  family :: string
  contextWindow :: int
  isDefault :: "bool option"
  endpoints :: "Endpoints option"

text \<open>\<^verbatim>\<open>endpoint?.outputMapping?.[field] || fallback\<close>: the configured path, or the fallback
  when the endpoint, the mapping or the entry is absent or the entry is the empty string.\<close>

definition output_path :: "APIEndpointDefinition option \<Rightarrow> string \<Rightarrow> string \<Rightarrow> string" where
  "output_path endpoint field fallback =
     (case endpoint of
        None \<Rightarrow> fallback
      | Some e \<Rightarrow>
          (case outputMapping e of
             None \<Rightarrow> fallback
           | Some mapping \<Rightarrow>
               (case mapping field of
                  None \<Rightarrow> fallback
                | Some path \<Rightarrow> if path = [] then fallback else path)))"

definition LOCAL_FALLBACK_MODELS :: "AIModelConfig list" where
  "LOCAL_FALLBACK_MODELS =
     [\<lparr>id' = ''gemini-2.5-flash'', name = ''Gemini 2.5 Flash'', provider = ''google_native'',
        family = ''text'', contextWindow = 1000000, isDefault = Some True, endpoints = None\<rparr>,
      \<lparr>id' = ''gemini-3-pro-preview'', name = ''Gemini 3.0 Pro'', provider = ''google_native'',
        family = ''text'', contextWindow = 2000000, isDefault = None, endpoints = None\<rparr>,
      \<lparr>id' = ''gemini-2.5-flash-image'', name = ''Gemini 2.5 Flash (Image)'',
        provider = ''google_native'', family = ''image'', contextWindow = 0, isDefault = None,
        endpoints = None\<rparr>,
      \<lparr>id' = ''gemini-3-pro-image-preview'', name = ''Gemini 3.0 Pro (Image)'',
        provider = ''google_native'', family = ''image'', contextWindow = 0, isDefault = None,
        endpoints = None\<rparr>,
      \<lparr>id' = ''veo-3.1'', name = ''Veo 3.1 (Video)'', provider = ''google_native'',
        family = ''video'', contextWindow = 0, isDefault = None, endpoints = None\<rparr>]"

section \<open>The environment\<close>

text \<open>
  The gateway talks to the network, the browser's key-value store and a timer. A request is
  what \<^verbatim>\<open>fetch\<close> is called with; its body is the value handed to \<^verbatim>\<open>JSON.stringify\<close>. A
  response offers the observations the code makes of it: \<^verbatim>\<open>ok\<close>, \<^verbatim>\<open>status\<close>, the outcomes
  of \<^verbatim>\<open>text()\<close> and \<^verbatim>\<open>json()\<close>, and the outcome of reading the body as a blob and turning it
  into a data URL with a \<^verbatim>\<open>FileReader\<close>: \<^verbatim>\<open>blob()\<close> rejects, or the reader reports an error
  (\<open>None\<close>), or the reader's result is the data URL.
\<close>

record request =
  req_url :: string
  req_method :: string
  req_headers :: "(string \<times> string) list"
  req_body :: "js_value option"

record response =
  ok :: bool
  status_code :: nat
  text_body :: string
  json_body :: "error + js_value"
  blob_data_url :: "error + string option"

datatype fetch_result = Rejects error | Resolves response

text \<open>
  The world answers the \<open>n\<close>-th \<^verbatim>\<open>fetch\<close> of a run (counted from 0) as a function of the
  request, holds the stored credentials, and stands for the two collaborators of the
  native provider: the content generation of the vendor SDK (given the key, the model id,
  the prompt and the system instruction, it yields the text of the response, if any) and
  \<^verbatim>\<open>geminiService.generateVisual\<close>.
\<close>

record world =
  localStorage :: "string \<rightharpoonup> string"
  fetch_reply :: "nat \<Rightarrow> request \<Rightarrow> fetch_result"
  sdk_generateContent :: "string \<Rightarrow> string \<Rightarrow> string \<Rightarrow> string option \<Rightarrow> error + string option"
  geminiService_generateVisual :: "string \<Rightarrow> string \<Rightarrow> error + js_value"

text \<open>A run records the time slept so far, in milliseconds, and every request sent,
  each with the time at which it was sent.\<close>

record run =
  clock :: nat
  sent :: "(nat \<times> request) list"

definition start :: run where
  "start = \<lparr>clock = 0, sent = []\<rparr>"

definition sleep :: "nat \<Rightarrow> run \<Rightarrow> run" where
  "sleep ms st = st\<lparr>clock := clock st + ms\<rparr>"

definition fetch :: "world \<Rightarrow> request \<Rightarrow> run \<Rightarrow> fetch_result \<times> run" where
  "fetch w req st = (fetch_reply w (length (sent st)) req, st\<lparr>sent := sent st @ [(clock st, req)]\<rparr>)"

section \<open>The provider registry\<close>

text \<open>
  \<^verbatim>\<open>fetchRemoteDefinitions\<close>. Reading \<^verbatim>\<open>data.models\<close> throws when \<^verbatim>\<open>data\<close> is \<^verbatim>\<open>null\<close> and
  gives \<^verbatim>\<open>undefined\<close> when it is not an object with that property. The type assertion
  \<^verbatim>\<open>data.models as AIModelConfig[]\<close> checks nothing when the program runs; the typed reading
  of the array is the parameter \<open>as_configs\<close>. The body of the \<^verbatim>\<open>try\<close> block comes first,
  then the function with its \<^verbatim>\<open>catch\<close>.
\<close>

definition read_property :: "js_value \<Rightarrow> string \<Rightarrow> error + js_value" where
  "read_property v key =
     (case v of
        Undefined \<Rightarrow> Inl (TypeError (''Cannot read properties of undefined (reading '' @ key @ '')''))
      | Null \<Rightarrow> Inl (TypeError (''Cannot read properties of null (reading '' @ key @ '')''))
      | Obj props \<Rightarrow> Inr (case map_of props key of Some x \<Rightarrow> x | None \<Rightarrow> Undefined)
      | _ \<Rightarrow> Inr Undefined)"

definition models_request :: request where
  "models_request =
     \<lparr>req_url = ''https://raw.githubusercontent.com/showrunner-ai/models/main/models.json'',
      req_method = ''GET'', req_headers = [], req_body = None\<rparr>"

definition fetchRemoteDefinitions_try ::
    "(js_value list \<Rightarrow> AIModelConfig list) \<Rightarrow> world \<Rightarrow> run \<Rightarrow> (error + AIModelConfig list) \<times> run" where
  "fetchRemoteDefinitions_try as_configs w st =
     (case fetch w models_request st of
        (Rejects e, st1) \<Rightarrow> (Inl e, st1)
      | (Resolves response, st1) \<Rightarrow>
          if \<not> ok response then (Inr LOCAL_FALLBACK_MODELS, st1)
          else
            (case json_body response of
               Inl e \<Rightarrow> (Inl e, st1)
             | Inr data \<Rightarrow>
                 (case read_property data ''models'' of
                    Inl e \<Rightarrow> (Inl e, st1)
                  | Inr (Arr models) \<Rightarrow> (Inr (as_configs models), st1)
                  | Inr _ \<Rightarrow> (Inr LOCAL_FALLBACK_MODELS, st1))))"

definition fetchRemoteDefinitions ::
    "(js_value list \<Rightarrow> AIModelConfig list) \<Rightarrow> world \<Rightarrow> run \<Rightarrow> (error + AIModelConfig list) \<times> run" where
  "fetchRemoteDefinitions as_configs w st =
     (case fetchRemoteDefinitions_try as_configs w st of
        (Inl error, st1) \<Rightarrow> (Inr LOCAL_FALLBACK_MODELS, st1)
      | (Inr models, st1) \<Rightarrow> (Inr models, st1))"

text \<open>
  \<^verbatim>\<open>fetchModels\<close> of \<^verbatim>\<open>store/showrunnerStore.ts\<close>: \<^verbatim>\<open>findIndex\<close> gives the first index at
  which the test holds, or \<open>-1\<close>; the loop over the custom models overwrites in place or
  pushes at the end.
\<close>

fun findIndex :: "('a \<Rightarrow> bool) \<Rightarrow> 'a list \<Rightarrow> int" where
  "findIndex P [] = - 1"
| "findIndex P (x # xs) =
     (if P x then 0 else (let i = findIndex P xs in if i = - 1 then - 1 else i + 1))"

fun merge_custom :: "AIModelConfig list \<Rightarrow> AIModelConfig list \<Rightarrow> AIModelConfig list" where
  "merge_custom mergedModels [] = mergedModels"
| "merge_custom mergedModels (custom # rest) =
     (let index = findIndex (\<lambda>m. id' m = id' custom) mergedModels
      in if index \<noteq> - 1 then merge_custom (mergedModels[nat index := custom]) rest
         else merge_custom (mergedModels @ [custom]) rest)"

record store =
  availableModels :: "AIModelConfig list"
  customModels :: "AIModelConfig list"

definition fetchModels ::
    "(js_value list \<Rightarrow> AIModelConfig list) \<Rightarrow> world \<Rightarrow> store \<Rightarrow> run \<Rightarrow> (error + store) \<times> run" where
  "fetchModels as_configs w state st =
     (case fetchRemoteDefinitions as_configs w st of
        (Inl e, st1) \<Rightarrow> (Inl e, st1)
      | (Inr remoteModels, st1) \<Rightarrow>
          (Inr (state\<lparr>availableModels := merge_custom remoteModels (customModels state)\<rparr>), st1))"

section \<open>The polling engine\<close>

definition POLLING_INTERVAL :: nat where
  "POLLING_INTERVAL = 2000"

definition MAX_ATTEMPTS :: nat where
  "MAX_ATTEMPTS = 60"

text \<open>\<^verbatim>\<open>statusValue?.toLowerCase()\<close>: \<^verbatim>\<open>undefined\<close> for a missing value, the lowered string for
  a string, and a type error for any other value, which has no such method.\<close>

definition optional_toLowerCase :: "js_value \<Rightarrow> error + js_value" where
  "optional_toLowerCase v =
     (case v of
        Undefined \<Rightarrow> Inr Undefined
      | Null \<Rightarrow> Inr Undefined
      | Str s \<Rightarrow> Inr (Str (toLowerCase s))
      | _ \<Rightarrow> Inl (TypeError ''statusValue?.toLowerCase is not a function''))"

definition array_includes :: "string list \<Rightarrow> js_value \<Rightarrow> bool" where
  "array_includes words v = (case v of Str s \<Rightarrow> s \<in> set words | _ \<Rightarrow> False)"

text \<open>The \<^verbatim>\<open>for\<close> loop of \<^verbatim>\<open>pollForCompletion\<close> from attempt \<open>i\<close> on: sleep, send the status
  request, look at the answer.\<close>

function poll_loop ::
    "world \<Rightarrow> APIEndpointDefinition \<Rightarrow> request \<Rightarrow> nat \<Rightarrow> run \<Rightarrow> (error + js_value) \<times> run" where
  "poll_loop w statusEndpoint req i st =
     (if i < MAX_ATTEMPTS then
        (case fetch w req (sleep POLLING_INTERVAL st) of
           (Rejects e, st1) \<Rightarrow> (Inl e, st1)
         | (Resolves response, st1) \<Rightarrow>
             if \<not> ok response then poll_loop w statusEndpoint req (i + 1) st1
             else
               (case json_body response of
                  Inl e \<Rightarrow> (Inl e, st1)
                | Inr data \<Rightarrow>
                    (let statusPath = output_path (Some statusEndpoint) ''status'' ''status'';
                         statusValue = resolvePath data statusPath
                     in case optional_toLowerCase statusValue of
                          Inl e \<Rightarrow> (Inl e, st1)
                        | Inr lowered \<Rightarrow>
                            if array_includes [''succeeded'', ''completed'', ''done'', ''success''] lowered
                            then (Inr data, st1)
                            else if array_includes [''failed'', ''error''] lowered
                            then (Inl (Error (''Generation failed with status: '' @ String statusValue)), st1)
                            else poll_loop w statusEndpoint req (i + 1) st1)))
      else (Inl (Error ''Generation timed out.''), st))"
  by pat_completeness auto
termination
  by (relation "measure (\<lambda>(w, statusEndpoint, req, i, st). MAX_ATTEMPTS - i)") auto

declare poll_loop.simps [simp del]

text \<open>The header loop, \<^verbatim>\<open>headers[key] = value.replace('{{key}}', apiKey)\<close> over the entries of
  the endpoint's headers, starting from \<^verbatim>\<open>{}\<close>: as in the payload constructor, the
  assignment creates no property for the key \<^verbatim>\<open>__proto__\<close>.\<close>

definition resolve_headers :: "(string \<times> string) list option \<Rightarrow> string \<Rightarrow> (string \<times> string) list" where
  "resolve_headers hs apiKey =
     (case hs of
        None \<Rightarrow> []
      | Some entries \<Rightarrow>
          map (\<lambda>(key, value). (key, replace value ''{{key}}'' apiKey))
            (filter (\<lambda>(key, value). key \<noteq> ''__proto__'') entries))"

definition pollForCompletion ::
    "world \<Rightarrow> js_value \<Rightarrow> AIModelConfig \<Rightarrow> string \<Rightarrow> run \<Rightarrow> (error + js_value) \<times> run" where
  "pollForCompletion w initialResponse config apiKey st =
     (let taskIdPath = output_path (map_option generate (endpoints config)) ''id'' ''id'';
          taskId = resolvePath initialResponse taskIdPath
      in if \<not> truthy taskId
         then (Inl (Error ''Could not extract Task ID from initial response for polling.''), st)
         else
           (case Option.bind (endpoints config) status of
              None \<Rightarrow> (Inl (TypeError ''Cannot read properties of undefined (reading headers)''), st)
            | Some statusEndpoint \<Rightarrow>
                (let headers = resolve_headers (headers statusEndpoint) apiKey;
                     statusUrl = replace (url statusEndpoint) ''{{id}}'' (String taskId)
                 in poll_loop w statusEndpoint
                      \<lparr>req_url = statusUrl, req_method = http_method statusEndpoint,
                       req_headers = headers, req_body = None\<rparr> 0 st)))"

section \<open>The request executor\<close>

text \<open>
  \<^verbatim>\<open>executeGenericRequest\<close>. The stored credential is \<^verbatim>\<open>null\<close> (\<open>None\<close>) when the key is
  absent; \<^verbatim>\<open>apiKey || ''\<close> is \<open>or_empty\<close>. The URL's tokens are resolved by the global
  pattern, the headers by \<^verbatim>\<open>replace\<close> with the string \<^verbatim>\<open>{{key}}\<close>.
\<close>

definition or_empty :: "string option \<Rightarrow> string" where
  "or_empty apiKey = (case apiKey of None \<Rightarrow> [] | Some k \<Rightarrow> k)"

definition url_token :: "inputs \<Rightarrow> string option \<Rightarrow> string \<Rightarrow> string" where
  "url_token requestInputs apiKey key =
     (if lookup_input requestInputs key \<noteq> Undefined then String (lookup_input requestInputs key)
      else if key = ''key'' \<and> or_empty apiKey \<noteq> [] then or_empty apiKey
      else ''{{'' @ key @ ''}}'')"

definition executeGenericRequest ::
    "world \<Rightarrow> AIModelConfig \<Rightarrow> inputs \<Rightarrow> run \<Rightarrow> (error + js_value) \<times> run" where
  "executeGenericRequest w config inputs st =
     (let apiKey = localStorage w (''apikey_'' @ provider config)
      in case endpoints config of
           None \<Rightarrow> (Inl (Error (''No generation endpoint defined for model '' @ name config)), st)
         | Some eps \<Rightarrow>
             (let endpoint = generate eps;
                  requestInputs = inputs(''id'' \<mapsto> Str (id' config));
                  body = constructPayload (paramMapping endpoint) requestInputs;
                  finalUrl = replace_tokens (url_token requestInputs apiKey) 0 (url endpoint);
                  headers = resolve_headers (headers endpoint) (or_empty apiKey)
              in case fetch w \<lparr>req_url = finalUrl, req_method = http_method endpoint,
                                req_headers = headers, req_body = Some body\<rparr> st of
                   (Rejects e, st1) \<Rightarrow> (Inl e, st1)
                 | (Resolves response, st1) \<Rightarrow>
                     if \<not> ok response
                     then (Inl (Error (''Provider Error ('' @ string_of_nat (status_code response)
                                        @ ''): '' @ text_body response)), st1)
                     else
                       (case json_body response of
                          Inl e \<Rightarrow> (Inl e, st1)
                        | Inr data \<Rightarrow>
                            if status eps \<noteq> None
                            then pollForCompletion w data config (or_empty apiKey) st1
                            else (Inr data, st1))))"

section \<open>Text and visual generation\<close>

text \<open>The \<^verbatim>\<open>catch\<close> blocks of the generic paths wrap any error in a new one that starts
  with the model's display name.\<close>

definition wrap_error :: "AIModelConfig \<Rightarrow> error \<Rightarrow> error" where
  "wrap_error config e = Error (''['' @ name config @ ''] Error: '' @ message e)"

definition generateText ::
    "world \<Rightarrow> string \<Rightarrow> AIModelConfig \<Rightarrow> string option \<Rightarrow> run \<Rightarrow> (error + string) \<times> run" where
  "generateText w prompt config systemInstruction st =
     (if provider config = ''google_native'' then
        (let apiKey = or_empty (localStorage w ''gemini_api_key'')
         in if apiKey = [] then (Inl (Error ''Google API Key not found.''), st)
            else
              (case sdk_generateContent w apiKey (id' config) prompt systemInstruction of
                 Inl e \<Rightarrow> (Inl e, st)
               | Inr text \<Rightarrow> (Inr (or_empty text), st)))
      else
        (case executeGenericRequest w config [''prompt'' \<mapsto> Str prompt] st of
           (Inl e, st1) \<Rightarrow> (Inl (wrap_error config e), st1)
         | (Inr rawResponse, st1) \<Rightarrow>
             (let resultPath = output_path (map_option generate (endpoints config)) ''text'' ''text'';
                  text = resolvePath rawResponse resultPath
              in case text of
                   Str t \<Rightarrow> (Inr t, st1)
                 | _ \<Rightarrow>
                     (Inl (wrap_error config (Error ''Could not extract text from provider response.'')),
                      st1))))"

text \<open>
  \<^verbatim>\<open>generateVisual\<close>: the promise is declared to hold a string, but what it resolves to is
  whatever the chosen branch returns, so the result is a value. \<^verbatim>\<open>imageUrl.startsWith\<close>
  exists only on a string. The promise around the \<^verbatim>\<open>FileReader\<close> is returned without
  \<^verbatim>\<open>await\<close>, so its rejection with the reader's error event does not pass through the
  \<^verbatim>\<open>catch\<close> block.
\<close>

definition image_request :: "string \<Rightarrow> request" where
  "image_request imageUrl = \<lparr>req_url = imageUrl, req_method = ''GET'', req_headers = [], req_body = None\<rparr>"

definition generateVisual ::
    "world \<Rightarrow> string \<Rightarrow> AIModelConfig \<Rightarrow> run \<Rightarrow> (error + js_value) \<times> run" where
  "generateVisual w prompt config st =
     (if provider config = ''google_native''
      then (geminiService_generateVisual w prompt (id' config), st)
      else
        (case executeGenericRequest w config [''prompt'' \<mapsto> Str prompt] st of
           (Inl e, st1) \<Rightarrow> (Inl (wrap_error config e), st1)
         | (Inr rawResponse, st1) \<Rightarrow>
             (let endpointDef =
                    (case Option.bind (endpoints config) status of
                       Some statusEndpoint \<Rightarrow> Some statusEndpoint
                     | None \<Rightarrow> map_option generate (endpoints config));
                  resultPath = output_path endpointDef ''image'' ''image_url'';
                  imageUrl = resolvePath rawResponse resultPath
              in if \<not> truthy imageUrl
                 then (Inl (wrap_error config
                              (Error ''Could not extract image URL from provider response.'')), st1)
                 else
                   (case imageUrl of
                      Str s \<Rightarrow>
                        if startsWith s ''http'' then
                          (case fetch w (image_request s) st1 of
                             (Rejects e, st2) \<Rightarrow> (Inl (wrap_error config e), st2)
                           | (Resolves imgResp, st2) \<Rightarrow>
                               (case blob_data_url imgResp of
                                  Inl e \<Rightarrow> (Inl (wrap_error config e), st2)
                                | Inr None \<Rightarrow> (Inl Event, st2)
                                | Inr (Some result) \<Rightarrow>
                                    (Inr (at_index (split result CHR '','') 1), st2)))
                        else if startsWith s ''data:image''
                        then (Inr (at_index (split s CHR '','') 1), st1)
                        else (Inr (Str s), st1)
                    | _ \<Rightarrow>
                        (Inl (wrap_error config (TypeError ''imageUrl.startsWith is not a function'')),
                         st1)))))"

section \<open>Notions of the specification\<close>

text \<open>
  A template contains a marker when one of its string leaves contains two opening braces
  followed, later in the string, by two closing braces.
\<close>

fun includes_str :: "string \<Rightarrow> string \<Rightarrow> bool" where
  "includes_str [] p = (p = [])"
| "includes_str (c # cs) p = (startsWith (c # cs) p \<or> includes_str cs p)"

fun has_marker :: "string \<Rightarrow> bool" where
  "has_marker [] = False"
| "has_marker (c # cs) =
     ((startsWith (c # cs) ''{{'' \<and> includes_str (drop 1 cs) ''}}'') \<or> has_marker cs)"

fun no_markers :: "js_value \<Rightarrow> bool" where
  "no_markers (Str s) = (\<not> has_marker s)"
| "no_markers (Arr items) = (\<forall>item \<in> set items. no_markers item)"
| "no_markers (Obj props) = (\<forall>kv \<in> set props. no_markers (snd kv))"
| "no_markers v = True"

text \<open>A value as \<^verbatim>\<open>JSON.parse\<close> yields it (nothing inherited in it), in which no object has a
  key named \<^verbatim>\<open>__proto__\<close>.\<close>

fun plain :: "js_value \<Rightarrow> bool" where
  "plain (Arr items) = (\<forall>item \<in> set items. plain item)"
| "plain (Obj props) = (\<forall>kv \<in> set props. fst kv \<noteq> ''__proto__'' \<and> plain (snd kv))"
| "plain (Inherited n) = False"
| "plain v = True"

text \<open>
  The remote fetch of the model list fails when \<^verbatim>\<open>fetch\<close> throws, when the response has a
  non-success status, or when the body is not a document whose \<^verbatim>\<open>models\<close> field is an array
  (a body that does not parse included).
\<close>

definition models_field_is_array :: "response \<Rightarrow> bool" where
  "models_field_is_array r =
     (case json_body r of
        Inr (Obj props) \<Rightarrow> (case map_of props ''models'' of Some (Arr models) \<Rightarrow> True | _ \<Rightarrow> False)
      | _ \<Rightarrow> False)"

definition remote_fetch_fails :: "fetch_result \<Rightarrow> bool" where
  "remote_fetch_fails r =
     (case r of Rejects e \<Rightarrow> True | Resolves resp \<Rightarrow> \<not> ok resp \<or> \<not> models_field_is_array resp)"

text \<open>Worlds and responses for concrete runs: no native collaborators, the given network
  and credentials; a response with a JSON body.\<close>

definition offline :: "(nat \<Rightarrow> request \<Rightarrow> fetch_result) \<Rightarrow> (string \<rightharpoonup> string) \<Rightarrow> world" where
  "offline net keys =
     \<lparr>localStorage = keys, fetch_reply = net,
      sdk_generateContent = (\<lambda>apiKey model prompt systemInstruction. Inr None),
      geminiService_generateVisual = (\<lambda>prompt model. Inr Undefined)\<rparr>"

definition json_response :: "nat \<Rightarrow> js_value \<Rightarrow> response" where
  "json_response code data =
     \<lparr>ok = (200 \<le> code \<and> code \<le> 299), status_code = code, text_body = [],
      json_body = Inr data, blob_data_url = Inr None\<rparr>"

text \<open>
  What the merge yields, said without the loop. \<open>last_custom\<close> is the last custom entry
  with a given id, \<open>override\<close> replaces a model by that entry when there is one,
  \<open>first_per_id\<close> keeps the first entry of every id, and a custom entry is fresh when no
  remote entry has its id. At a position of the remote list stands the override of the remote
  entry when the position is the first one with that id, and the remote entry otherwise;
  behind the remote positions stand the fresh ids, in the order of their first occurrence
  in the custom list.
\<close>

fun last_custom :: "AIModelConfig list \<Rightarrow> string \<Rightarrow> AIModelConfig option" where
  "last_custom [] i = None"
| "last_custom (c # cs) i =
     (case last_custom cs i of Some x \<Rightarrow> Some x | None \<Rightarrow> if id' c = i then Some c else None)"

definition override :: "AIModelConfig list \<Rightarrow> AIModelConfig \<Rightarrow> AIModelConfig" where
  "override cs m = (case last_custom cs (id' m) of Some c \<Rightarrow> c | None \<Rightarrow> m)"

fun first_per_id :: "AIModelConfig list \<Rightarrow> AIModelConfig list" where
  "first_per_id [] = []"
| "first_per_id (c # cs) = c # first_per_id (filter (\<lambda>x. id' x \<noteq> id' c) cs)"

definition fresh :: "AIModelConfig list \<Rightarrow> AIModelConfig \<Rightarrow> bool" where
  "fresh remote c = (id' c \<notin> set (map id' remote))"

definition merged_at :: "AIModelConfig list \<Rightarrow> AIModelConfig list \<Rightarrow> nat \<Rightarrow> AIModelConfig" where
  "merged_at remote cs j =
     (if findIndex (\<lambda>x. id' x = id' (remote ! j)) remote = int j then override cs (remote ! j)
      else remote ! j)"

definition appended :: "AIModelConfig list \<Rightarrow> AIModelConfig list \<Rightarrow> AIModelConfig list" where
  "appended remote cs = map (override cs) (first_per_id (filter (fresh remote) cs))"

text \<open>A model without endpoints, for concrete runs.\<close>

definition plain_model :: "string \<Rightarrow> string \<Rightarrow> AIModelConfig" where
  "plain_model i n =
     \<lparr>id' = i, name = n, provider = ''custom'', family = ''text'', contextWindow = 0,
      isDefault = None, endpoints = None\<rparr>"

text \<open>
  The polling engine's two terminal sets, the path of the status field, and the request
  that \<^verbatim>\<open>pollForCompletion\<close> sends on every attempt, as functions of the configuration and
  the initial response.
\<close>

definition success_words :: "string list" where
  "success_words = [''succeeded'', ''completed'', ''done'', ''success'']"

definition failure_words :: "string list" where
  "failure_words = [''failed'', ''error'']"

definition statusPath_of :: "APIEndpointDefinition \<Rightarrow> string" where
  "statusPath_of statusEndpoint = output_path (Some statusEndpoint) ''status'' ''status''"

definition taskId_of :: "AIModelConfig \<Rightarrow> js_value \<Rightarrow> js_value" where
  "taskId_of config initialResponse =
     resolvePath initialResponse (output_path (map_option generate (endpoints config)) ''id'' ''id'')"

definition status_request :: "APIEndpointDefinition \<Rightarrow> string \<Rightarrow> js_value \<Rightarrow> request" where
  "status_request statusEndpoint apiKey taskId =
     \<lparr>req_url = replace (url statusEndpoint) ''{{id}}'' (String taskId),
      req_method = http_method statusEndpoint,
      req_headers = resolve_headers (headers statusEndpoint) apiKey, req_body = None\<rparr>"

text \<open>One attempt made from a state (the interval slept, then the request sent), and \<open>m\<close>
  attempts in a row: the \<open>k\<close>-th of them is sent after \<open>k\<close> intervals.\<close>

definition after_attempt :: "request \<Rightarrow> run \<Rightarrow> run" where
  "after_attempt req st =
     st\<lparr>clock := clock st + POLLING_INTERVAL,
        sent := sent st @ [(clock st + POLLING_INTERVAL, req)]\<rparr>"

definition attempts :: "nat \<Rightarrow> request \<Rightarrow> run \<Rightarrow> run" where
  "attempts m req st =
     st\<lparr>clock := clock st + m * POLLING_INTERVAL,
        sent := sent st @ map (\<lambda>k. (clock st + (k + 1) * POLLING_INTERVAL, req)) [0..<m]\<rparr>"

text \<open>
  An answer to a status request leaves the task pending when it has a non-success HTTP
  status, or parses to a body whose status field is missing, \<^verbatim>\<open>null\<close>, or a string outside
  both terminal sets when lowered. A rejected request, a body that does not parse and a
  status that is not a string are not among them: they end the call with an error.
\<close>

definition still_pending :: "APIEndpointDefinition \<Rightarrow> fetch_result \<Rightarrow> bool" where
  "still_pending statusEndpoint reply =
     (case reply of
        Rejects e \<Rightarrow> False
      | Resolves r \<Rightarrow>
          \<not> ok r \<or>
          (case json_body r of
             Inl e \<Rightarrow> False
           | Inr data \<Rightarrow>
               (case resolvePath data (statusPath_of statusEndpoint) of
                  Undefined \<Rightarrow> True
                | Null \<Rightarrow> True
                | Str s \<Rightarrow> toLowerCase s \<notin> set success_words \<and> toLowerCase s \<notin> set failure_words
                | _ \<Rightarrow> False)))"

text \<open>An asynchronous provider, its answers to status requests, and three worlds, for
  concrete runs.\<close>

definition example_generate :: APIEndpointDefinition where
  "example_generate =
     \<lparr>url = ''https://api.example.com/v1/{{id}}/generate'', http_method = ''POST'',
      headers = Some [(''Authorization'', ''Bearer {{key}}'')],
      paramMapping = Obj [(''input'', Obj [(''prompt'', Str ''{{prompt}}'')])],
      outputMapping = None\<rparr>"

definition example_status :: APIEndpointDefinition where
  "example_status =
     \<lparr>url = ''https://api.example.com/v1/tasks/{{id}}'', http_method = ''GET'',
      headers = Some [(''Authorization'', ''Bearer {{key}}'')],
      paramMapping = Undefined, outputMapping = None\<rparr>"

definition polling_model :: AIModelConfig where
  "polling_model =
     \<lparr>id' = ''flux'', name = ''Flux'', provider = ''replicate'', family = ''image'',
      contextWindow = 0, isDefault = None,
      endpoints = Some \<lparr>generate = example_generate, status = Some example_status\<rparr>\<rparr>"

definition status_reply :: "string \<Rightarrow> fetch_result" where
  "status_reply s = Resolves (json_response 200 (Obj [(''status'', Str s)]))"

definition t1_request :: request where
  "t1_request =
     \<lparr>req_url = ''https://api.example.com/v1/tasks/t1'', req_method = ''GET'',
      req_headers = [(''Authorization'', ''Bearer k'')], req_body = None\<rparr>"

definition three_polls :: world where
  "three_polls =
     offline (\<lambda>n req. if n < 2 then status_reply ''pending'' else status_reply ''succeeded'') Map.empty"

definition always :: "string \<Rightarrow> world" where
  "always s = offline (\<lambda>n req. status_reply s) Map.empty"

text \<open>
  The request that \<^verbatim>\<open>executeGenericRequest\<close> sends to the generate endpoint, the paths at
  which the text and the image are looked up, and what an error looks like once a
  \<^verbatim>\<open>catch\<close> block of the generic path has wrapped it.
\<close>

definition generate_request :: "world \<Rightarrow> AIModelConfig \<Rightarrow> inputs \<Rightarrow> APIEndpointDefinition \<Rightarrow> request" where
  "generate_request w config inputs endpoint =
     \<lparr>req_url = replace_tokens (url_token (inputs(''id'' \<mapsto> Str (id' config)))
                   (localStorage w (''apikey_'' @ provider config))) 0 (url endpoint),
      req_method = http_method endpoint,
      req_headers = resolve_headers (headers endpoint)
                      (or_empty (localStorage w (''apikey_'' @ provider config))),
      req_body = Some (constructPayload (paramMapping endpoint) (inputs(''id'' \<mapsto> Str (id' config))))\<rparr>"

definition text_path :: "AIModelConfig \<Rightarrow> string" where
  "text_path config = output_path (map_option generate (endpoints config)) ''text'' ''text''"

definition image_path :: "AIModelConfig \<Rightarrow> string" where
  "image_path config =
     output_path
       (case Option.bind (endpoints config) status of
          Some statusEndpoint \<Rightarrow> Some statusEndpoint
        | None \<Rightarrow> map_option generate (endpoints config))
       ''image'' ''image_url''"

definition wrapped :: "AIModelConfig \<Rightarrow> error \<Rightarrow> bool" where
  "wrapped config e = (\<exists>m. e = Error (''['' @ name config @ ''] Error: '' @ m))"

text \<open>A synchronous text provider with the answer of the spec's scenario, a provider that
  answers with an error status, and an image provider whose answer holds the given value
  or the address of an image that reads as the given data URL; for concrete runs.\<close>

definition openai_endpoints :: Endpoints where
  "openai_endpoints =
     \<lparr>generate =
        \<lparr>url = ''https://api.example.com/v1/chat/completions'', http_method = ''POST'',
         headers = Some [(''Authorization'', ''Bearer {{key}}'')],
         paramMapping = Obj [(''model'', Str ''{{id}}''),
           (''messages'', Arr [Obj [(''role'', Str ''user''), (''content'', Str ''{{prompt}}'')]])],
         outputMapping = Some [''text'' \<mapsto> ''choices[0].message.content'']\<rparr>,
      status = None\<rparr>"

definition openai_like :: AIModelConfig where
  "openai_like =
     \<lparr>id' = ''gpt-x'', name = ''GPT X'', provider = ''openai_compatible'', family = ''text'',
      contextWindow = 8000, isDefault = None,
      endpoints = Some openai_endpoints\<rparr>"

definition hello_response :: js_value where
  "hello_response = Obj [(''choices'', Arr [Obj [(''message'', Obj [(''content'', Str ''Hello'')])]])]"

definition hello_world :: world where
  "hello_world =
     offline (\<lambda>n req. Resolves (json_response 200 hello_response))
       [''apikey_openai_compatible'' \<mapsto> ''sk-1'']"

definition failing_world :: world where
  "failing_world =
     offline (\<lambda>n req. Resolves \<lparr>ok = False, status_code = 500, text_body = ''boom'',
                                   json_body = Inl (SyntaxError ''Unexpected token''),
                                   blob_data_url = Inr None\<rparr>) Map.empty"

definition hello_request :: request where
  "hello_request =
     \<lparr>req_url = ''https://api.example.com/v1/chat/completions'', req_method = ''POST'',
      req_headers = [(''Authorization'', ''Bearer sk-1'')],
      req_body = Some (Obj [(''model'', Str ''gpt-x''),
        (''messages'', Arr [Obj [(''role'', Str ''user''), (''content'', Str ''Hi'')]])])\<rparr>"

definition image_model :: "string \<Rightarrow> AIModelConfig" where
  "image_model header =
     \<lparr>id' = ''sdxl'', name = ''SDXL'', provider = ''comfyui'', family = ''image'',
      contextWindow = 0, isDefault = None,
      endpoints = Some \<lparr>generate =
          \<lparr>url = ''http://localhost:8188/prompt'', http_method = ''POST'',
           headers = Some [(''X-Auth'', header)],
           paramMapping = Obj [(''prompt'', Str ''{{prompt}}'')],
           outputMapping = None\<rparr>,
        status = None\<rparr>\<rparr>"

definition image_world :: "js_value \<Rightarrow> world" where
  "image_world extracted =
     offline (\<lambda>n req. Resolves (json_response 200 (Obj [(''image_url'', extracted)])))
       [''apikey_comfyui'' \<mapsto> ''K'']"

definition url_world :: "string \<Rightarrow> string \<Rightarrow> world" where
  "url_world imageUrl dataUrl =
     offline (\<lambda>n req. if n = 0 then Resolves (json_response 200 (Obj [(''image_url'', Str imageUrl)]))
                        else Resolves \<lparr>ok = True, status_code = 200, text_body = [],
                                        json_body = Inl (SyntaxError ''Unexpected token''),
                                        blob_data_url = Inr (Some dataUrl)\<rparr>)
       Map.empty"

section \<open>Properties\<close>

subsection \<open>The payload constructor\<close>

lemma startsWith_iff: "startsWith s p = (\<exists>r. s = p @ r)"
  unfolding startsWith_def by (metis append_eq_conv_conj append_take_drop_id)

lemma endsWith_iff: "endsWith s p = (\<exists>r. s = r @ p)"
proof
  assume "endsWith s p"
  then have "s = take (length s - length p) s @ p"
    unfolding endsWith_def by (metis append_take_drop_id)
  then show "\<exists>r. s = r @ p" ..
next
  assume "\<exists>r. s = r @ p"
  then show "endsWith s p" by (auto simp: endsWith_def)
qed

lemma placeholder_form:
  "(startsWith s ''{{'' \<and> endsWith s ''}}'') = (\<exists>key. s = ''{{'' @ key @ ''}}'')"
proof
  assume a: "startsWith s ''{{'' \<and> endsWith s ''}}''"
  then obtain r q where s: "s = ''{{'' @ r" "s = q @ ''}}''"
    unfolding startsWith_iff endsWith_iff by blast
  then have "''{{'' @ r = q @ ''}}''" by simp
  then consider us where "''{{'' = q @ us" "us @ r = ''}}''" | us where "''{{'' @ us = q" "r = us @ ''}}''"
    unfolding append_eq_append_conv2 by blast
  then show "\<exists>key. s = ''{{'' @ key @ ''}}''"
  proof cases
    case 1
    then show ?thesis using s by (cases us; cases q) (auto simp: Cons_eq_append_conv append_eq_Cons_conv)
  next
    case 2
    then show ?thesis using s by auto
  qed
next
  assume "\<exists>key. s = ''{{'' @ key @ ''}}''"
  then show "startsWith s ''{{'' \<and> endsWith s ''}}''"
    by (auto simp: startsWith_def endsWith_def)
qed

lemma slice_placeholder: "slice (''{{'' @ key @ ''}}'') 2 (- 2) = key"
  by (simp add: slice_def slice_index_def)

lemma includes_str_drop: "k \<le> length s \<Longrightarrow> includes_str s (drop k s)"
proof (induction s arbitrary: k)
  case Nil
  then show ?case by simp
next
  case (Cons c cs)
  then show ?case by (cases k) (auto simp: startsWith_def)
qed

lemma placeholder_has_marker: "has_marker (''{{'' @ key @ ''}}'')"
  using includes_str_drop [of "length key" "key @ ''}}''"]
  by (auto simp: startsWith_def)

lemma constructPayload_no_markers:
  "plain t \<Longrightarrow> no_markers t \<Longrightarrow> constructPayload t inputs = t"
proof (induction t)
  case (Str s)
  then show ?case using placeholder_has_marker by (auto simp: placeholder_form)
next
  case (Arr items)
  then show ?case by (simp add: map_idI)
next
  case (Obj props)
  have keep: "filter (\<lambda>kv. fst kv \<noteq> ''__proto__'') props = props"
    using Obj.prems by (simp add: filter_id_conv)
  have "(fst kv, constructPayload (snd kv) inputs) = kv" if "kv \<in> set props" for kv
  proof -
    obtain a b where kv: "kv = (a, b)" by (cases kv)
    have "constructPayload b inputs = b"
      using Obj.IH [of "(a, b)" b] Obj.prems that kv by fastforce
    then show ?thesis by (simp add: kv)
  qed
  then have "map (\<lambda>kv. (fst kv, constructPayload (snd kv) inputs)) props = props"
    by (rule map_idI)
  then show ?case by (simp add: keep)
qed simp_all

text \<open>
  The cases of the payload constructor. A string made of two opening braces, a name and two
  closing braces becomes \<^verbatim>\<open>inputs[name]\<close> when that is defined and stays the template string
  when it is undefined; any other string is returned as it is; an array is transformed
  element by element; an object has each value transformed under its key, the key
  \<^verbatim>\<open>__proto__\<close> left out; numbers, booleans and \<^verbatim>\<open>null\<close> are returned unchanged; a template
  without markers and without such a key is returned equal to itself.
\<close>

lemma constructPayload_cases:
  "(lookup_input inputs key \<noteq> Undefined \<longrightarrow>
      constructPayload (Str (''{{'' @ key @ ''}}'')) inputs = lookup_input inputs key)
   \<and> (lookup_input inputs missing = Undefined \<longrightarrow>
      constructPayload (Str (''{{'' @ missing @ ''}}'')) inputs = Str (''{{'' @ missing @ ''}}''))
   \<and> ((\<nexists>n. s = ''{{'' @ n @ ''}}'') \<longrightarrow> constructPayload (Str s) inputs = Str s)
   \<and> constructPayload (Arr items) inputs = Arr (map (\<lambda>item. constructPayload item inputs) items)
   \<and> constructPayload (Obj props) inputs =
        Obj (map (\<lambda>(k, v). (k, constructPayload v inputs))
               (filter (\<lambda>(k, v). k \<noteq> ''__proto__'') props))
   \<and> constructPayload (Num i) inputs = Num i
   \<and> constructPayload (Bool b) inputs = Bool b
   \<and> constructPayload Null inputs = Null
   \<and> (plain t \<and> no_markers t \<longrightarrow> constructPayload t inputs = t)"
proof -
  have marker: "constructPayload (Str (''{{'' @ n @ ''}}'')) inputs =
      (if lookup_input inputs n \<noteq> Undefined then lookup_input inputs n
       else Str (''{{'' @ n @ ''}}''))" for n
  proof -
    have "startsWith (''{{'' @ n @ ''}}'') ''{{'' \<and> endsWith (''{{'' @ n @ ''}}'') ''}}''"
      unfolding placeholder_form by blast
    then show ?thesis
      by (simp add: slice_placeholder del: append.simps)
  qed
  have other: "(\<nexists>n. s = ''{{'' @ n @ ''}}'') \<longrightarrow> constructPayload (Str s) inputs = Str s"
    by (simp add: placeholder_form)
  have obj: "constructPayload (Obj props) inputs =
        Obj (map (\<lambda>(k, v). (k, constructPayload v inputs))
               (filter (\<lambda>(k, v). k \<noteq> ''__proto__'') props))"
    by (simp add: case_prod_unfold)
  show ?thesis
    using marker [of key] marker [of missing] other obj constructPayload_no_markers [of t inputs]
    by simp
qed

lemma constructPayload_examples:
  "constructPayload (Str ''{{prompt}}'') [''prompt'' \<mapsto> Str ''hi''] = Str ''hi''
   \<and> constructPayload (Str ''{{seed}}'') [''prompt'' \<mapsto> Str ''hi''] = Str ''{{seed}}''
   \<and> constructPayload (Str ''say {{prompt}}'') [''prompt'' \<mapsto> Str ''hi''] = Str ''say {{prompt}}''
   \<and> constructPayload (Obj [(''n'', Num 1), (''tags'', Arr [Str ''a'', Null])]) [''prompt'' \<mapsto> Str ''hi'']
       = Obj [(''n'', Num 1), (''tags'', Arr [Str ''a'', Null])]
   \<and> constructPayload (Str ''{{toString}}'') [''prompt'' \<mapsto> Str ''hi''] = Inherited ''toString''"
  by code_simp

text \<open>
  Claim C2 says that an object template keeps its keys and that a template without markers
  is returned equal to itself. The template parsed from the JSON text with the two keys
  \<^verbatim>\<open>__proto__\<close> and \<^verbatim>\<open>a\<close> has no marker, and the payload built from it has lost the first key:
  the assignment \<^verbatim>\<open>result[key] = ...\<close> on the fresh object does not create it.
\<close>

theorem constructPayload_drops_proto_key:
  "no_markers (Obj [(''__proto__'', Str ''x''), (''a'', Num 1)])
   \<and> constructPayload (Obj [(''__proto__'', Str ''x''), (''a'', Num 1)]) [''prompt'' \<mapsto> Str ''hi'']
       = Obj [(''a'', Num 1)]"
  by code_simp

subsection \<open>The remote model list\<close>

lemma fetchRemoteDefinitions_fallback:
  assumes "remote_fetch_fails (fetch_reply w (length (sent st)) models_request)"
  shows "fst (fetchRemoteDefinitions as_configs w st) = Inr LOCAL_FALLBACK_MODELS"
  using assms
  unfolding fetchRemoteDefinitions_def fetchRemoteDefinitions_try_def fetch_def
    remote_fetch_fails_def models_field_is_array_def read_property_def
  by (auto split: fetch_result.splits sum.splits js_value.splits option.splits)

lemma fetchRemoteDefinitions_resolves:
  "\<exists>models. fst (fetchRemoteDefinitions as_configs w st) = Inr models"
  unfolding fetchRemoteDefinitions_def fetchRemoteDefinitions_try_def fetch_def read_property_def
  by (auto split: fetch_result.splits sum.splits js_value.splits option.splits)

text \<open>
  Claim C1. Whatever the outcome of the remote fetch, \<^verbatim>\<open>fetchRemoteDefinitions\<close> does not throw:
  it resolves to a list; and when the fetch throws, the status is not a success, or the
  body's \<^verbatim>\<open>models\<close> field is not an array, that list is exactly the built-in fallback list.
\<close>

theorem fetchRemoteDefinitions_falls_back:
  "(\<exists>models. fst (fetchRemoteDefinitions as_configs w st) = Inr models)
   \<and> (remote_fetch_fails (fetch_reply w (length (sent st)) models_request) \<longrightarrow>
        fst (fetchRemoteDefinitions as_configs w st) = Inr LOCAL_FALLBACK_MODELS)"
  using fetchRemoteDefinitions_fallback fetchRemoteDefinitions_resolves by blast

theorem fetchRemoteDefinitions_falls_back_witness:
  "fst (fetchRemoteDefinitions (\<lambda>models. [])
         (offline (\<lambda>n req. Rejects (TypeError ''Failed to fetch'')) Map.empty) start)
     = Inr LOCAL_FALLBACK_MODELS
   \<and> fst (fetchRemoteDefinitions (\<lambda>models. [])
         (offline (\<lambda>n req. Resolves (json_response 500 (Obj [(''models'', Arr [])]))) Map.empty) start)
     = Inr LOCAL_FALLBACK_MODELS
   \<and> fst (fetchRemoteDefinitions (\<lambda>models. [])
         (offline (\<lambda>n req. Resolves (json_response 200 (Obj [(''not_models'', Arr [])]))) Map.empty) start)
     = Inr LOCAL_FALLBACK_MODELS"
  using
    fetchRemoteDefinitions_falls_back [of "\<lambda>models. []"
      "offline (\<lambda>n req. Rejects (TypeError ''Failed to fetch'')) Map.empty" start]
    fetchRemoteDefinitions_falls_back [of "\<lambda>models. []"
      "offline (\<lambda>n req. Resolves (json_response 500 (Obj [(''models'', Arr [])]))) Map.empty" start]
    fetchRemoteDefinitions_falls_back [of "\<lambda>models. []"
      "offline (\<lambda>n req. Resolves (json_response 200 (Obj [(''not_models'', Arr [])]))) Map.empty" start]
  by (simp add: remote_fetch_fails_def models_field_is_array_def offline_def json_response_def)

subsection \<open>The registry merge\<close>

lemma findIndex_ge: "- 1 \<le> findIndex P xs"
  by (induction xs) (auto simp: Let_def)

lemma findIndex_none: "(findIndex P xs = - 1) = (\<forall>x \<in> set xs. \<not> P x)"
proof (induction xs)
  case Nil
  then show ?case by simp
next
  case (Cons x xs)
  then show ?case using findIndex_ge [of P xs] by (auto simp: Let_def)
qed

lemma findIndex_iff:
  "(findIndex P xs = int j) = (j < length xs \<and> P (xs ! j) \<and> (\<forall>k < j. \<not> P (xs ! k)))"
proof (induction xs arbitrary: j)
  case Nil
  then show ?case by simp
next
  case (Cons x xs)
  show ?case
  proof (cases "P x")
    case True
    then show ?thesis by (cases j) auto
  next
    case False
    show ?thesis
    proof (cases j)
      case 0
      with False show ?thesis using findIndex_ge [of P xs] by (auto simp: Let_def)
    next
      case (Suc n)
      have "(findIndex P (x # xs) = int (Suc n)) = (findIndex P xs = int n)"
        using False by (auto simp: Let_def)
      also have "\<dots> = (n < length xs \<and> P (xs ! n) \<and> (\<forall>k < n. \<not> P (xs ! k)))"
        by (rule Cons.IH)
      also have "\<dots> = (Suc n < length (x # xs) \<and> P ((x # xs) ! Suc n) \<and> (\<forall>k < Suc n. \<not> P ((x # xs) ! k)))"
        using False by (auto simp: less_Suc_eq_0_disj)
      finally show ?thesis using Suc by simp
    qed
  qed
qed

lemma findIndex_found:
  assumes "findIndex P xs \<noteq> - 1"
  shows "\<exists>j. findIndex P xs = int j"
proof -
  have "0 \<le> findIndex P xs" using assms findIndex_ge [of P xs] by arith
  then have "findIndex P xs = int (nat (findIndex P xs))" by simp
  then show ?thesis ..
qed

lemma findIndex_map: "findIndex (\<lambda>x. f x = a) xs = findIndex (\<lambda>y. y = a) (map f xs)"
  by (induction xs) (auto simp: Let_def)

lemma findIndex_same_ids:
  "map id' xs = map id' ys \<Longrightarrow> findIndex (\<lambda>x. id' x = a) xs = findIndex (\<lambda>x. id' x = a) ys"
  by (simp add: findIndex_map [of id'])

lemma map_id_update:
  "i < length r \<Longrightarrow> id' c = id' (r ! i) \<Longrightarrow> map id' (r[i := c]) = map id' r"
  by (simp add: map_update list_update_same_conv)

lemma last_custom_id: "last_custom cs i = Some x \<Longrightarrow> id' x = i \<and> x \<in> set cs"
  by (induction cs) (auto split: option.splits if_splits)

lemma last_custom_None: "(last_custom cs i = None) = (i \<notin> set (map id' cs))"
  by (induction cs) (auto split: option.splits)

lemma override_Nil: "override [] m = m"
  by (simp add: override_def)

lemma override_Cons_other: "id' c \<noteq> id' m \<Longrightarrow> override (c # cs) m = override cs m"
  by (simp add: override_def split: option.splits)

lemma override_Cons_same: "id' c = id' m \<Longrightarrow> override (c # cs) m = override cs c"
  by (simp add: override_def split: option.splits)

lemma set_first_per_id: "set (first_per_id xs) \<subseteq> set xs"
proof (induction xs rule: first_per_id.induct)
  case 1
  then show ?case by simp
next
  case (2 c cs)
  then show ?case by auto
qed

lemma id_nth_mem: "k < length r \<Longrightarrow> id' (r ! k) \<in> id' ` set r"
  by simp

lemma not_fresh_nth: "k < length r \<Longrightarrow> id' (r ! k) = id' c \<Longrightarrow> \<not> fresh r c"
  unfolding fresh_def using id_nth_mem [of k r] by simp

lemma prefix_replace:
  assumes idx: "findIndex (\<lambda>x. id' x = id' c) r = int i" and j: "j < length r"
  shows "merged_at (r[i := c]) cs j = merged_at r (c # cs) j"
proof -
  from idx have i: "i < length r" "id' (r ! i) = id' c" "\<forall>k < i. id' (r ! k) \<noteq> id' c"
    by (auto simp: findIndex_iff)
  have ids: "map id' (r[i := c]) = map id' r"
    using i by (simp add: map_id_update)
  have same: "findIndex (\<lambda>x. id' x = a) (r[i := c]) = findIndex (\<lambda>x. id' x = a) r" for a
    by (rule findIndex_same_ids [OF ids])
  show ?thesis
  proof (cases "j = i")
    case True
    then show ?thesis
      using i idx by (simp add: merged_at_def same override_Cons_same)
  next
    case False
    show ?thesis
    proof (cases "id' (r ! j) = id' c")
      case True
      then have "findIndex (\<lambda>x. id' x = id' (r ! j)) r \<noteq> int j"
        using idx False by simp
      then show ?thesis using False by (simp add: merged_at_def same)
    next
      case neq: False
      then show ?thesis using False by (simp add: merged_at_def same override_Cons_other)
    qed
  qed
qed

lemma findIndex_append_left:
  assumes "j < length xs"
  shows "(findIndex P (xs @ ys) = int j) = (findIndex P xs = int j)"
  using assms by (auto simp: findIndex_iff nth_append)

lemma prefix_append:
  assumes fresh: "fresh r c" and j: "j < length r"
  shows "merged_at (r @ [c]) cs j = merged_at r (c # cs) j"
proof -
  have "id' c \<noteq> id' (r ! j)" using fresh j by (auto simp: fresh_def)
  then show ?thesis
    using j by (simp add: merged_at_def nth_append findIndex_append_left override_Cons_other)
qed

lemma last_append:
  assumes fresh: "fresh r c"
  shows "merged_at (r @ [c]) cs (length r) = override cs c"
proof -
  have "findIndex (\<lambda>x. id' x = id' c) (r @ [c]) = int (length r)"
    using fresh not_fresh_nth [of _ r c] by (auto simp: findIndex_iff nth_append)
  then show ?thesis by (simp add: merged_at_def)
qed

lemma appended_replace:
  assumes "\<not> fresh r c" "map id' r' = map id' r"
  shows "appended r' cs = appended r (c # cs)"
proof -
  have f: "fresh r' = fresh r" using assms(2) by (simp add: fresh_def fun_eq_iff)
  have "override (c # cs) x = override cs x" if "x \<in> set (first_per_id (filter (fresh r) cs))" for x
  proof -
    from that have "fresh r x" using set_first_per_id by fastforce
    with assms(1) have "id' c \<noteq> id' x" by (auto simp: fresh_def)
    then show ?thesis by (rule override_Cons_other)
  qed
  then show ?thesis using assms(1) by (simp add: appended_def f)
qed

lemma appended_append:
  assumes "fresh r c"
  shows "override cs c # appended (r @ [c]) cs = appended r (c # cs)"
proof -
  have f: "filter (fresh (r @ [c])) cs = filter (\<lambda>x. id' x \<noteq> id' c) (filter (fresh r) cs)"
    by (auto simp: fresh_def intro: filter_cong)
  have "override (c # cs) x = override cs x"
    if "x \<in> set (first_per_id (filter (\<lambda>x. id' x \<noteq> id' c) (filter (fresh r) cs)))" for x
  proof -
    from that have "id' x \<noteq> id' c" using set_first_per_id by fastforce
    then show ?thesis by (simp add: override_Cons_other)
  qed
  then show ?thesis
    using assms by (simp add: appended_def f override_Cons_same)
qed

lemma merge_custom_closed_form:
  "merge_custom r cs = map (merged_at r cs) [0..<length r] @ appended r cs"
proof (induction cs arbitrary: r)
  case Nil
  have "map (merged_at r []) [0..<length r] = map ((!) r) [0..<length r]"
    by (rule map_cong) (auto simp: merged_at_def override_Nil)
  then show ?case by (simp add: appended_def map_nth)
next
  case (Cons c cs)
  show ?case
  proof (cases "findIndex (\<lambda>m. id' m = id' c) r = - 1")
    case True
    then have fr: "fresh r c" by (auto simp: findIndex_none fresh_def)
    have "merge_custom r (c # cs) = merge_custom (r @ [c]) cs"
      using True by simp
    also have "\<dots> = map (merged_at (r @ [c]) cs) [0..<length r] @ [merged_at (r @ [c]) cs (length r)]
        @ appended (r @ [c]) cs"
      by (simp add: Cons.IH)
    also have "map (merged_at (r @ [c]) cs) [0..<length r] = map (merged_at r (c # cs)) [0..<length r]"
      by (rule map_cong) (auto simp: prefix_append [OF fr])
    also have "[merged_at (r @ [c]) cs (length r)] @ appended (r @ [c]) cs = appended r (c # cs)"
      using appended_append [OF fr] by (simp add: last_append [OF fr])
    finally show ?thesis .
  next
    case False
    then obtain i where idx: "findIndex (\<lambda>m. id' m = id' c) r = int i"
      using findIndex_found by blast
    then have i: "i < length r" "id' (r ! i) = id' c" by (auto simp: findIndex_iff)
    have nfr: "\<not> fresh r c" using i by (rule not_fresh_nth)
    have ids: "map id' (r[i := c]) = map id' r" using i by (simp add: map_id_update)
    have "merge_custom r (c # cs) = merge_custom (r[i := c]) cs"
      using False idx by simp
    also have "\<dots> = map (merged_at (r[i := c]) cs) [0..<length r] @ appended (r[i := c]) cs"
      by (simp add: Cons.IH)
    also have "map (merged_at (r[i := c]) cs) [0..<length r] = map (merged_at r (c # cs)) [0..<length r]"
      by (rule map_cong) (auto simp: prefix_replace [OF idx])
    also have "appended (r[i := c]) cs = appended r (c # cs)"
      by (rule appended_replace [OF nfr ids])
    finally show ?thesis .
  qed
qed

lemma last_custom_distinct:
  "distinct (map id' cs) \<Longrightarrow> c \<in> set cs \<Longrightarrow> last_custom cs (id' c) = Some c"
proof (induction cs)
  case Nil
  then show ?case by simp
next
  case (Cons x cs)
  show ?case
  proof (cases "c \<in> set cs")
    case True
    then show ?thesis using Cons by simp
  next
    case False
    then have "c = x" using Cons.prems by simp
    moreover have "last_custom cs (id' x) = None"
      using Cons.prems by (simp add: last_custom_None)
    ultimately show ?thesis by simp
  qed
qed

lemma override_own:
  "distinct (map id' cs) \<Longrightarrow> c \<in> set cs \<Longrightarrow> override cs c = c"
  by (simp add: override_def last_custom_distinct)

lemma first_per_id_distinct: "distinct (map id' xs) \<Longrightarrow> first_per_id xs = xs"
proof (induction xs)
  case Nil
  then show ?case by simp
next
  case (Cons x xs)
  then have "filter (\<lambda>y. id' y \<noteq> id' x) xs = xs"
    by (force simp: filter_id_conv image_iff)
  with Cons show ?case by simp
qed

lemma appended_distinct:
  assumes "distinct (map id' cs)"
  shows "appended r cs = filter (\<lambda>c. id' c \<notin> id' ` set r) cs"
proof -
  have d: "distinct (map id' (filter (fresh r) cs))"
    using assms by (rule distinct_map_filter)
  have "appended r cs = map (override cs) (filter (fresh r) cs)"
    by (simp add: appended_def first_per_id_distinct [OF d])
  also have "\<dots> = filter (fresh r) cs"
    using assms by (auto intro!: map_idI override_own)
  also have "\<dots> = filter (\<lambda>c. id' c \<notin> id' ` set r) cs"
    by (rule filter_cong) (simp_all add: fresh_def)
  finally show ?thesis .
qed

lemma closed_form_nth:
  "j < length r \<Longrightarrow> (map (merged_at r cs) [0..<length r] @ appended r cs) ! j = merged_at r cs j"
  by (simp add: nth_append)

lemma merged_at_kept:
  assumes "id' (r ! j) \<notin> id' ` set cs"
  shows "merged_at r cs j = r ! j"
proof -
  have "last_custom cs (id' (r ! j)) = None" using assms by (simp add: last_custom_None)
  then show ?thesis by (simp add: merged_at_def override_def)
qed

lemma merged_at_replaced:
  assumes "distinct (map id' cs)" "c \<in> set cs" "findIndex (\<lambda>m. id' m = id' c) r = int j"
  shows "merged_at r cs j = c"
proof -
  from assms(3) have "id' (r ! j) = id' c" by (simp add: findIndex_iff)
  then show ?thesis
    using assms by (simp add: merged_at_def override_def last_custom_distinct)
qed

text \<open>
  Claim C3. \<^verbatim>\<open>fetchModels\<close> stores the merge of the remote (or fallback) list and the custom
  list. The merge keeps every remote position: a remote entry whose id no custom entry has
  stays unchanged where it is, and a custom entry whose id matches a remote entry stands,
  whole, at the position of that entry (the first one with that id); behind the remote
  positions come the custom entries with a fresh id, in the order of the custom list. The
  last two statements are for a custom list with one entry per id; the closed form before
  them holds for every pair of lists (with several custom entries of one id, the last one
  stands at the place the first one took).
\<close>

theorem fetchModels_merge:
  assumes "fetchRemoteDefinitions as_configs w st = (Inr remote, st1)"
  shows "\<exists>merged.
      fetchModels as_configs w state st = (Inr (state\<lparr>availableModels := merged\<rparr>), st1)
    \<and> merged = map (merged_at remote (customModels state)) [0..<length remote]
               @ appended remote (customModels state)
    \<and> (\<forall>j < length remote.
          id' (remote ! j) \<notin> id' ` set (customModels state) \<longrightarrow> merged ! j = remote ! j)
    \<and> (distinct (map id' (customModels state)) \<longrightarrow>
          (\<forall>c \<in> set (customModels state). \<forall>j.
              findIndex (\<lambda>m. id' m = id' c) remote = int j \<longrightarrow> merged ! j = c)
        \<and> drop (length remote) merged
            = filter (\<lambda>c. id' c \<notin> id' ` set remote) (customModels state))"
proof -
  let ?cs = "customModels state"
  let ?merged = "merge_custom remote ?cs"
  have run: "fetchModels as_configs w state st = (Inr (state\<lparr>availableModels := ?merged\<rparr>), st1)"
    using assms by (simp add: fetchModels_def)
  have form: "?merged = map (merged_at remote ?cs) [0..<length remote] @ appended remote ?cs"
    by (rule merge_custom_closed_form)
  have nth: "?merged ! j = merged_at remote ?cs j" if "j < length remote" for j
    using that by (simp only: form closed_form_nth)
  have kept: "\<forall>j < length remote. id' (remote ! j) \<notin> id' ` set ?cs \<longrightarrow> ?merged ! j = remote ! j"
    by (simp add: nth merged_at_kept)
  have repl: "\<forall>c \<in> set ?cs. \<forall>j. findIndex (\<lambda>m. id' m = id' c) remote = int j \<longrightarrow> ?merged ! j = c"
    if "distinct (map id' ?cs)"
  proof (intro ballI allI impI)
    fix c j
    assume c: "c \<in> set ?cs" and idx: "findIndex (\<lambda>m. id' m = id' c) remote = int j"
    then have "j < length remote" by (simp add: findIndex_iff)
    then show "?merged ! j = c"
      using merged_at_replaced [OF that c idx] by (simp add: nth)
  qed
  have app: "drop (length remote) ?merged = filter (\<lambda>c. id' c \<notin> id' ` set remote) ?cs"
    if "distinct (map id' ?cs)"
  proof -
    have "drop (length remote) ?merged = appended remote ?cs"
      by (subst form) simp
    then show ?thesis using appended_distinct [OF that] by simp
  qed
  from run form kept repl app show ?thesis by blast
qed

theorem fetchModels_merge_witness:
  "fst (fetchModels (\<lambda>models. [plain_model ''m1'' ''one'', plain_model ''m2'' ''two''])
         (offline (\<lambda>n req. Resolves (json_response 200 (Obj [(''models'', Arr [])]))) Map.empty)
         \<lparr>availableModels = [],
          customModels = [plain_model ''m2'' ''override'', plain_model ''m3'' ''three'']\<rparr> start)
   = Inr \<lparr>availableModels =
            [plain_model ''m1'' ''one'', plain_model ''m2'' ''override'', plain_model ''m3'' ''three''],
          customModels = [plain_model ''m2'' ''override'', plain_model ''m3'' ''three'']\<rparr>"
proof -
  let ?w = "offline (\<lambda>n req. Resolves (json_response 200 (Obj [(''models'', Arr [])]))) Map.empty"
  let ?cast = "\<lambda>models :: js_value list. [plain_model ''m1'' ''one'', plain_model ''m2'' ''two'']"
  have remote: "fetchRemoteDefinitions ?cast ?w start
      = (Inr [plain_model ''m1'' ''one'', plain_model ''m2'' ''two''],
         start\<lparr>sent := [(0, models_request)]\<rparr>)"
    by (simp add: fetchRemoteDefinitions_def fetchRemoteDefinitions_try_def fetch_def offline_def
        json_response_def read_property_def start_def)
  have ids: "distinct (map id' [plain_model ''m2'' ''override'', plain_model ''m3'' ''three''])"
    by (simp add: plain_model_def)
  show ?thesis
    using fetchModels_merge [OF remote, of "\<lparr>availableModels = [],
          customModels = [plain_model ''m2'' ''override'', plain_model ''m3'' ''three'']\<rparr>"] ids
    by (auto simp: merged_at_def appended_def override_def fresh_def plain_model_def upt_rec [of 0]
        upt_rec [of 1] upt_rec [of 2] Let_def)
qed

subsection \<open>The polling engine\<close>

lemma fetch_sleep:
  "fetch w req (sleep POLLING_INTERVAL st) = (fetch_reply w (length (sent st)) req, after_attempt req st)"
  by (simp add: fetch_def sleep_def after_attempt_def)

lemma poll_loop_not_ok:
  assumes "i < MAX_ATTEMPTS" "fetch_reply w (length (sent st)) req = Resolves r" "\<not> ok r"
  shows "poll_loop w ep req i st = poll_loop w ep req (i + 1) (after_attempt req st)"
  using assms by (subst poll_loop.simps) (simp add: fetch_sleep)

lemma poll_loop_failed:
  assumes "i < MAX_ATTEMPTS" "fetch_reply w (length (sent st)) req = Resolves r" "ok r"
    "json_body r = Inr data" "resolvePath data (statusPath_of ep) = Str s"
    "toLowerCase s \<in> set failure_words"
  shows "poll_loop w ep req i st =
    (Inl (Error (''Generation failed with status: '' @ s)), after_attempt req st)"
  using assms
  by (subst poll_loop.simps)
    (auto simp: fetch_sleep statusPath_of_def optional_toLowerCase_def array_includes_def
      failure_words_def Let_def)

lemma poll_loop_succeeded:
  assumes "i < MAX_ATTEMPTS" "fetch_reply w (length (sent st)) req = Resolves r" "ok r"
    "json_body r = Inr data" "resolvePath data (statusPath_of ep) = Str s"
    "toLowerCase s \<in> set success_words"
  shows "poll_loop w ep req i st = (Inr data, after_attempt req st)"
  using assms
  by (subst poll_loop.simps)
    (auto simp: fetch_sleep statusPath_of_def optional_toLowerCase_def array_includes_def
      success_words_def Let_def)

lemma pollForCompletion_loop:
  assumes "truthy (taskId_of config initialResponse)" "endpoints config = Some eps"
    "status eps = Some ep"
  shows "pollForCompletion w initialResponse config apiKey st =
    poll_loop w ep (status_request ep apiKey (taskId_of config initialResponse)) 0 st"
  using assms by (simp add: pollForCompletion_def taskId_of_def status_request_def Let_def)

text \<open>
  Claim C4. In the polling loop a status request answered with a non-success HTTP status
  raises no error: the call goes on with the next attempt, exactly one attempt and one
  interval later. A parseable answer whose status field, lowered, is \<^verbatim>\<open>failed\<close> or \<^verbatim>\<open>error\<close>
  ends the call at once with the error that carries the status as it was received; this
  holds at any attempt, and for \<^verbatim>\<open>pollForCompletion\<close> as a whole at the very first one, after
  a single request.
\<close>

theorem pollForCompletion_transient_and_failed:
  "(i < MAX_ATTEMPTS \<and> fetch_reply w (length (sent st)) req = Resolves r \<and> \<not> ok r \<longrightarrow>
      poll_loop w ep req i st = poll_loop w ep req (i + 1) (after_attempt req st))
   \<and> (i' < MAX_ATTEMPTS \<and> fetch_reply w' (length (sent st')) req' = Resolves r' \<and> ok r'
        \<and> json_body r' = Inr data \<and> resolvePath data (statusPath_of ep') = Str s
        \<and> toLowerCase s \<in> set failure_words \<longrightarrow>
      poll_loop w' ep' req' i' st' =
        (Inl (Error (''Generation failed with status: '' @ s)), after_attempt req' st'))
   \<and> (truthy (taskId_of config initialResponse) \<and> endpoints config = Some eps
        \<and> status eps = Some statusEndpoint
        \<and> fetch_reply w0 (length (sent st0)) = (\<lambda>req. Resolves r0) \<and> ok r0
        \<and> json_body r0 = Inr data0 \<and> resolvePath data0 (statusPath_of statusEndpoint) = Str s0
        \<and> toLowerCase s0 \<in> set failure_words \<longrightarrow>
      pollForCompletion w0 initialResponse config apiKey st0 =
        (Inl (Error (''Generation failed with status: '' @ s0)),
         after_attempt (status_request statusEndpoint apiKey (taskId_of config initialResponse)) st0))"
proof (intro conjI impI)
  assume "i < MAX_ATTEMPTS \<and> fetch_reply w (length (sent st)) req = Resolves r \<and> \<not> ok r"
  then show "poll_loop w ep req i st = poll_loop w ep req (i + 1) (after_attempt req st)"
    using poll_loop_not_ok by blast
next
  assume "i' < MAX_ATTEMPTS \<and> fetch_reply w' (length (sent st')) req' = Resolves r' \<and> ok r'
        \<and> json_body r' = Inr data \<and> resolvePath data (statusPath_of ep') = Str s
        \<and> toLowerCase s \<in> set failure_words"
  then show "poll_loop w' ep' req' i' st' =
        (Inl (Error (''Generation failed with status: '' @ s)), after_attempt req' st')"
    using poll_loop_failed by blast
next
  assume a: "truthy (taskId_of config initialResponse) \<and> endpoints config = Some eps
        \<and> status eps = Some statusEndpoint
        \<and> fetch_reply w0 (length (sent st0)) = (\<lambda>req. Resolves r0) \<and> ok r0
        \<and> json_body r0 = Inr data0 \<and> resolvePath data0 (statusPath_of statusEndpoint) = Str s0
        \<and> toLowerCase s0 \<in> set failure_words"
  have zero: "0 < MAX_ATTEMPTS" by (simp add: MAX_ATTEMPTS_def)
  from a have "pollForCompletion w0 initialResponse config apiKey st0 =
      poll_loop w0 statusEndpoint
        (status_request statusEndpoint apiKey (taskId_of config initialResponse)) 0 st0"
    using pollForCompletion_loop by blast
  also have "\<dots> = (Inl (Error (''Generation failed with status: '' @ s0)),
         after_attempt (status_request statusEndpoint apiKey (taskId_of config initialResponse)) st0)"
    using a by (intro poll_loop_failed [OF zero, of _ _ _ r0 data0]) simp_all
  finally show "pollForCompletion w0 initialResponse config apiKey st0 =
        (Inl (Error (''Generation failed with status: '' @ s0)),
         after_attempt (status_request statusEndpoint apiKey (taskId_of config initialResponse)) st0)" .
qed

theorem pollForCompletion_transient_and_failed_witness:
  "poll_loop (offline (\<lambda>n req. if n = 0 then Resolves (json_response 503 Null)
                                 else status_reply ''succeeded'') Map.empty)
      example_status t1_request 0 start
     = (Inr (Obj [(''status'', Str ''succeeded'')]), after_attempt t1_request (after_attempt t1_request start))
   \<and> poll_loop (offline (\<lambda>n req. status_reply ''FAILED'') Map.empty) example_status t1_request 0 start
     = (Inl (Error ''Generation failed with status: FAILED''), after_attempt t1_request start)
   \<and> pollForCompletion (offline (\<lambda>n req. status_reply ''Error'') Map.empty)
        (Obj [(''id'', Str ''t1'')]) polling_model ''k'' start
     = (Inl (Error ''Generation failed with status: Error''), after_attempt t1_request start)"
proof -
  let ?wa = "offline (\<lambda>n req. if n = 0 then Resolves (json_response 503 Null)
                               else status_reply ''succeeded'') Map.empty"
  let ?wb = "offline (\<lambda>n req. status_reply ''FAILED'') Map.empty"
  let ?wc = "offline (\<lambda>n req. status_reply ''Error'') Map.empty"
  let ?eps = "\<lparr>generate = example_generate, status = Some example_status\<rparr>"
  note inst_a = pollForCompletion_transient_and_failed
      [where i = 0 and w = ?wa and st = start and req = t1_request and r = "json_response 503 Null"
         and ep = example_status, THEN conjunct1]
  note inst_b = pollForCompletion_transient_and_failed
      [where i' = 0 and w' = ?wb and st' = start and req' = t1_request
         and r' = "json_response 200 (Obj [(''status'', Str ''FAILED'')])"
         and data = "Obj [(''status'', Str ''FAILED'')]" and ep' = example_status and s = "''FAILED''",
       THEN conjunct2, THEN conjunct1]
  note inst_c = pollForCompletion_transient_and_failed
      [where config = polling_model and initialResponse = "Obj [(''id'', Str ''t1'')]" and eps = ?eps
         and statusEndpoint = example_status and ?w0.0 = ?wc and ?st0.0 = start
         and ?r0.0 = "json_response 200 (Obj [(''status'', Str ''Error'')])"
         and ?data0.0 = "Obj [(''status'', Str ''Error'')]" and ?s0.0 = "''Error''" and apiKey = "''k''",
       THEN conjunct2, THEN conjunct2]
  have zero: "0 < MAX_ATTEMPTS" "1 < MAX_ATTEMPTS" by (simp_all add: MAX_ATTEMPTS_def)
  have p1: "resolvePath (Obj [(''status'', Str ''FAILED'')]) (statusPath_of example_status) = Str ''FAILED''"
    by code_simp
  have p2: "toLowerCase ''FAILED'' \<in> set failure_words" by code_simp
  have p3: "resolvePath (Obj [(''status'', Str ''Error'')]) (statusPath_of example_status) = Str ''Error''"
    by code_simp
  have p4: "toLowerCase ''Error'' \<in> set failure_words" by code_simp
  have p5: "truthy (taskId_of polling_model (Obj [(''id'', Str ''t1'')]))" by code_simp
  have p6: "status_request example_status ''k'' (taskId_of polling_model (Obj [(''id'', Str ''t1'')])) = t1_request"
    by code_simp
  have p7: "resolvePath (Obj [(''status'', Str ''succeeded'')]) (statusPath_of example_status) = Str ''succeeded''"
    by code_simp
  have p8: "toLowerCase ''succeeded'' \<in> set success_words" by code_simp
  have a: "poll_loop ?wa example_status t1_request 0 start
      = poll_loop ?wa example_status t1_request (0 + 1) (after_attempt t1_request start)"
    using inst_a zero by (simp add: offline_def json_response_def start_def)
  have a': "poll_loop ?wa example_status t1_request (0 + 1) (after_attempt t1_request start)
      = (Inr (Obj [(''status'', Str ''succeeded'')]), after_attempt t1_request (after_attempt t1_request start))"
    using zero p7 p8
    by (intro poll_loop_succeeded [where r = "json_response 200 (Obj [(''status'', Str ''succeeded'')])"])
      (simp_all add: offline_def json_response_def start_def after_attempt_def status_reply_def)
  have b: "poll_loop ?wb example_status t1_request 0 start
      = (Inl (Error ''Generation failed with status: FAILED''), after_attempt t1_request start)"
    using inst_b zero p1 p2 by (simp add: offline_def json_response_def status_reply_def start_def)
  have c: "pollForCompletion ?wc (Obj [(''id'', Str ''t1'')]) polling_model ''k'' start
      = (Inl (Error ''Generation failed with status: Error''), after_attempt t1_request start)"
    using inst_c p3 p4 p5 p6
    by (simp add: offline_def json_response_def status_reply_def polling_model_def start_def)
  from a a' b c show ?thesis by simp
qed

lemma attempts_0: "attempts 0 req st = st"
  by (simp add: attempts_def)

lemma attempts_Suc: "attempts m req (after_attempt req st) = attempts (Suc m) req st"
proof -
  have "map (\<lambda>k. (clock st + POLLING_INTERVAL + (k + 1) * POLLING_INTERVAL, req)) [0..<m]
      = map (\<lambda>k. (clock st + (k + 1) * POLLING_INTERVAL, req)) [Suc 0..<Suc m]"
    by (simp add: map_Suc_upt [symmetric] del: upt_Suc)
  then show ?thesis
    by (simp add: attempts_def after_attempt_def upt_rec [of 0 "Suc m"] ac_simps del: upt_Suc)
qed

lemma attempts_1: "after_attempt req st = attempts 1 req st"
  using attempts_Suc [of 0 req st] by (simp add: attempts_0)

lemma poll_loop_done: "\<not> i < MAX_ATTEMPTS \<Longrightarrow> poll_loop w ep req i st = (Inl (Error ''Generation timed out.''), st)"
  by (subst poll_loop.simps) simp

lemma poll_loop_step:
  assumes "i < MAX_ATTEMPTS"
  shows "poll_loop w ep req i st = poll_loop w ep req (i + 1) (after_attempt req st)
       \<or> snd (poll_loop w ep req i st) = after_attempt req st"
  using assms
  by (subst (1 3) poll_loop.simps)
     (auto simp: fetch_sleep Let_def split: fetch_result.splits sum.splits)

lemma poll_loop_attempts:
  "\<exists>m \<le> MAX_ATTEMPTS - i. snd (poll_loop w ep req i st) = attempts m req st"
proof (induction "MAX_ATTEMPTS - i" arbitrary: i st)
  case 0
  then have "\<not> i < MAX_ATTEMPTS" by simp
  then show ?case by (simp add: poll_loop_done attempts_0)
next
  case (Suc n)
  then have i: "i < MAX_ATTEMPTS" and n: "n = MAX_ATTEMPTS - (i + 1)" by arith+
  from Suc.hyps(1) [OF n, of "after_attempt req st"]
  obtain m where m: "m \<le> MAX_ATTEMPTS - (i + 1)"
      "snd (poll_loop w ep req (i + 1) (after_attempt req st)) = attempts m req (after_attempt req st)"
    by blast
  from poll_loop_step [OF i, of w ep req st] show ?case
  proof
    assume "poll_loop w ep req i st = poll_loop w ep req (i + 1) (after_attempt req st)"
    then have "snd (poll_loop w ep req i st) = attempts (Suc m) req st"
      using m by (simp add: attempts_Suc)
    moreover have "Suc m \<le> MAX_ATTEMPTS - i" using m i by arith
    ultimately show ?thesis by blast
  next
    assume "snd (poll_loop w ep req i st) = after_attempt req st"
    then have "snd (poll_loop w ep req i st) = attempts 1 req st" by (simp add: attempts_1)
    moreover have "1 \<le> MAX_ATTEMPTS - i" using i by arith
    ultimately show ?thesis by blast
  qed
qed

lemma poll_loop_continue:
  assumes "i < MAX_ATTEMPTS" "fetch_reply w (length (sent st)) req = Resolves r" "ok r"
    "json_body r = Inr data" "optional_toLowerCase (resolvePath data (statusPath_of ep)) = Inr v"
    "\<not> array_includes [''succeeded'', ''completed'', ''done'', ''success''] v"
    "\<not> array_includes [''failed'', ''error''] v"
  shows "poll_loop w ep req i st = poll_loop w ep req (i + 1) (after_attempt req st)"
  using assms
  by (subst poll_loop.simps) (simp add: fetch_sleep Let_def statusPath_of_def)

lemma poll_loop_pending:
  assumes i: "i < MAX_ATTEMPTS" and p: "still_pending ep (fetch_reply w (length (sent st)) req)"
  shows "poll_loop w ep req i st = poll_loop w ep req (i + 1) (after_attempt req st)"
proof -
  from p obtain r where r: "fetch_reply w (length (sent st)) req = Resolves r"
    by (cases "fetch_reply w (length (sent st)) req") (simp_all add: still_pending_def)
  show ?thesis
  proof (cases "ok r")
    case False
    with i r show ?thesis by (simp add: poll_loop_not_ok)
  next
    case True
    with p r obtain data where d: "json_body r = Inr data"
      by (cases "json_body r") (simp_all add: still_pending_def)
    let ?v = "resolvePath data (statusPath_of ep)"
    from p r True d have v: "?v = Undefined \<or> ?v = Null \<or>
        (\<exists>s. ?v = Str s \<and> toLowerCase s \<notin> set success_words \<and> toLowerCase s \<notin> set failure_words)"
      by (cases ?v) (simp_all add: still_pending_def)
    then obtain l where l: "optional_toLowerCase ?v = Inr l"
        "\<not> array_includes [''succeeded'', ''completed'', ''done'', ''success''] l"
        "\<not> array_includes [''failed'', ''error''] l"
      unfolding optional_toLowerCase_def array_includes_def success_words_def failure_words_def
      by fastforce
    from i r True d l show ?thesis by (rule poll_loop_continue)
  qed
qed

lemma length_sent_after: "length (sent (after_attempt req st)) = Suc (length (sent st))"
  by (simp add: after_attempt_def)

lemma poll_loop_timeout:
  assumes "\<forall>n. length (sent st) \<le> n \<and> n < length (sent st) + (MAX_ATTEMPTS - i) \<longrightarrow>
             still_pending ep (fetch_reply w n req)"
  shows "poll_loop w ep req i st =
    (Inl (Error ''Generation timed out.''), attempts (MAX_ATTEMPTS - i) req st)"
  using assms
proof (induction "MAX_ATTEMPTS - i" arbitrary: i st)
  case 0
  then have "\<not> i < MAX_ATTEMPTS" by simp
  then show ?case using 0 by (simp add: poll_loop_done attempts_0)
next
  case (Suc n)
  then have i: "i < MAX_ATTEMPTS" and n: "n = MAX_ATTEMPTS - (i + 1)" by arith+
  have now: "still_pending ep (fetch_reply w (length (sent st)) req)"
    using Suc.prems i by simp
  have later: "\<forall>k. length (sent (after_attempt req st)) \<le> k
        \<and> k < length (sent (after_attempt req st)) + (MAX_ATTEMPTS - (i + 1)) \<longrightarrow>
      still_pending ep (fetch_reply w k req)"
  proof (intro allI impI)
    fix k
    assume "length (sent (after_attempt req st)) \<le> k
        \<and> k < length (sent (after_attempt req st)) + (MAX_ATTEMPTS - (i + 1))"
    then have "length (sent st) \<le> k \<and> k < length (sent st) + (MAX_ATTEMPTS - i)"
      using i unfolding length_sent_after by arith
    then show "still_pending ep (fetch_reply w k req)" using Suc.prems by blast
  qed
  have "poll_loop w ep req i st = poll_loop w ep req (i + 1) (after_attempt req st)"
    using i now by (rule poll_loop_pending)
  also have "\<dots> = (Inl (Error ''Generation timed out.''),
      attempts (MAX_ATTEMPTS - (i + 1)) req (after_attempt req st))"
    using Suc.hyps(1) [OF n later] .
  also have "attempts (MAX_ATTEMPTS - (i + 1)) req (after_attempt req st)
      = attempts (MAX_ATTEMPTS - i) req st"
    using i by (simp add: attempts_Suc Suc_diff_Suc)
  finally show ?case .
qed

lemma pending_word: "still_pending ep (Resolves r)"
  if "ok r" "json_body r = Inr d" "resolvePath d (statusPath_of ep) = Str ''pending''"
proof -
  have "toLowerCase ''pending'' \<notin> set success_words \<and> toLowerCase ''pending'' \<notin> set failure_words"
    by code_simp
  then show ?thesis using that by (simp add: still_pending_def)
qed

lemma poll_three:
  assumes task: "truthy (taskId_of config initialResponse)" "endpoints config = Some eps"
      "status eps = Some ep"
    and req: "req = status_request ep apiKey (taskId_of config initialResponse)"
    and r1: "fetch_reply w (length (sent st)) req = Resolves r1" "ok r1" "json_body r1 = Inr d1"
      "resolvePath d1 (statusPath_of ep) = Str ''pending''"
    and r2: "fetch_reply w (length (sent st) + 1) req = Resolves r2" "ok r2" "json_body r2 = Inr d2"
      "resolvePath d2 (statusPath_of ep) = Str ''pending''"
    and r3: "fetch_reply w (length (sent st) + 2) req = Resolves r3" "ok r3" "json_body r3 = Inr d3"
      "resolvePath d3 (statusPath_of ep) = Str ''succeeded''"
  shows "pollForCompletion w initialResponse config apiKey st = (Inr d3, attempts 3 req st)"
proof -
  have lt: "0 < MAX_ATTEMPTS" "1 < MAX_ATTEMPTS" "2 < MAX_ATTEMPTS" by (simp_all add: MAX_ATTEMPTS_def)
  have ok3: "toLowerCase ''succeeded'' \<in> set success_words" by code_simp
  let ?st1 = "after_attempt req st"
  let ?st2 = "after_attempt req ?st1"
  have l1: "length (sent ?st1) = length (sent st) + 1" "length (sent ?st2) = length (sent st) + 2"
    by (simp_all add: length_sent_after)
  have "pollForCompletion w initialResponse config apiKey st = poll_loop w ep req 0 st"
    using task req by (simp add: pollForCompletion_loop)
  also have "\<dots> = poll_loop w ep req (0 + 1) ?st1"
    using lt(1) r1 by (intro poll_loop_pending) (simp_all add: pending_word)
  also have "\<dots> = poll_loop w ep req (0 + 1 + 1) ?st2"
    using lt(2) r2 by (intro poll_loop_pending) (simp_all add: pending_word l1)
  also have "\<dots> = (Inr d3, after_attempt req ?st2)"
    using lt(3) r3 ok3 by (intro poll_loop_succeeded [where r = r3 and s = "''succeeded''"]) (simp_all add: l1)
  finally have run: "pollForCompletion w initialResponse config apiKey st
      = (Inr d3, after_attempt req ?st2)" .
  have "after_attempt req ?st2 = attempts 1 req ?st2" by (rule attempts_1)
  also have "\<dots> = attempts (Suc 1) req ?st1" by (rule attempts_Suc)
  also have "\<dots> = attempts (Suc (Suc 1)) req st" by (rule attempts_Suc)
  finally have "after_attempt req ?st2 = attempts 3 req st" by (simp add: numeral_3_eq_3)
  with run show ?thesis by simp
qed

lemma attempts_3:
  "attempts 3 req st =
     st\<lparr>clock := clock st + 3 * POLLING_INTERVAL,
        sent := sent st @ [(clock st + POLLING_INTERVAL, req), (clock st + 2 * POLLING_INTERVAL, req),
                           (clock st + 3 * POLLING_INTERVAL, req)]\<rparr>"
  by (simp add: attempts_def numeral_3_eq_3)

text \<open>
  Claim C5, amended. When the first three status polls answer \<^verbatim>\<open>pending\<close>, \<^verbatim>\<open>pending\<close>,
  \<^verbatim>\<open>succeeded\<close>, \<^verbatim>\<open>pollForCompletion\<close> returns the third answer, and the three requests are sent
  after one, two and three intervals: three waits of 2000 ms have elapsed when the third
  answer is received, two of them after the first answer. The claim as stated, with two
  waits before the third answer, fails on the run of \<open>three_polls\<close>.
\<close>

theorem pollForCompletion_three_polls:
  assumes "truthy (taskId_of config initialResponse)" "endpoints config = Some eps"
      "status eps = Some ep"
    and "req = status_request ep apiKey (taskId_of config initialResponse)"
    and "fetch_reply w (length (sent st)) req = Resolves r1" "ok r1" "json_body r1 = Inr d1"
      "resolvePath d1 (statusPath_of ep) = Str ''pending''"
    and "fetch_reply w (length (sent st) + 1) req = Resolves r2" "ok r2" "json_body r2 = Inr d2"
      "resolvePath d2 (statusPath_of ep) = Str ''pending''"
    and "fetch_reply w (length (sent st) + 2) req = Resolves r3" "ok r3" "json_body r3 = Inr d3"
      "resolvePath d3 (statusPath_of ep) = Str ''succeeded''"
  shows "pollForCompletion w initialResponse config apiKey st =
    (Inr d3,
     st\<lparr>clock := clock st + 3 * POLLING_INTERVAL,
        sent := sent st @ [(clock st + POLLING_INTERVAL, req), (clock st + 2 * POLLING_INTERVAL, req),
                           (clock st + 3 * POLLING_INTERVAL, req)]\<rparr>)"
  using poll_three [OF assms] by (simp only: attempts_3)

theorem pollForCompletion_three_polls_witness:
  "pollForCompletion three_polls (Obj [(''id'', Str ''t1'')]) polling_model ''k'' start =
    (Inr (Obj [(''status'', Str ''succeeded'')]),
     \<lparr>clock = 6000, sent = [(2000, t1_request), (4000, t1_request), (6000, t1_request)]\<rparr>)"
proof -
  let ?eps = "\<lparr>generate = example_generate, status = Some example_status\<rparr>"
  have p: "resolvePath (Obj [(''status'', Str ''pending'')]) (statusPath_of example_status) = Str ''pending''"
    by code_simp
  have s: "resolvePath (Obj [(''status'', Str ''succeeded'')]) (statusPath_of example_status) = Str ''succeeded''"
    by code_simp
  have t: "truthy (taskId_of polling_model (Obj [(''id'', Str ''t1'')]))" by code_simp
  have q: "t1_request = status_request example_status ''k'' (taskId_of polling_model (Obj [(''id'', Str ''t1'')]))"
    by code_simp
  have "pollForCompletion three_polls (Obj [(''id'', Str ''t1'')]) polling_model ''k'' start =
    (Inr (Obj [(''status'', Str ''succeeded'')]),
     start\<lparr>clock := clock start + 3 * POLLING_INTERVAL,
        sent := sent start @ [(clock start + POLLING_INTERVAL, t1_request),
                              (clock start + 2 * POLLING_INTERVAL, t1_request),
                              (clock start + 3 * POLLING_INTERVAL, t1_request)]\<rparr>)"
    by (rule pollForCompletion_three_polls [where eps = ?eps and ep = example_status
          and ?r1.0 = "json_response 200 (Obj [(''status'', Str ''pending'')])"
          and ?d1.0 = "Obj [(''status'', Str ''pending'')]"
          and ?r2.0 = "json_response 200 (Obj [(''status'', Str ''pending'')])"
          and ?d2.0 = "Obj [(''status'', Str ''pending'')]"
          and ?r3.0 = "json_response 200 (Obj [(''status'', Str ''succeeded'')])", OF t _ _ q])
      (simp_all add: p s polling_model_def three_polls_def offline_def status_reply_def
        json_response_def start_def)
  then show ?thesis by (simp add: start_def POLLING_INTERVAL_def)
qed

theorem pollForCompletion_three_polls_counterexample:
  "\<not> (fst (pollForCompletion three_polls (Obj [(''id'', Str ''t1'')]) polling_model ''k'' start)
        = Inr (Obj [(''status'', Str ''succeeded'')])
      \<and> clock (snd (pollForCompletion three_polls (Obj [(''id'', Str ''t1'')]) polling_model ''k'' start))
        = 2 * POLLING_INTERVAL)"
  by code_simp

text \<open>
  Claim C6, amended. \<^verbatim>\<open>pollForCompletion\<close> makes at most 60 status attempts, each 2000 ms
  after the one before; and when every one of the 60 answers leaves the task pending, the
  call ends after the 60th attempt with the time-out error. The claim as stated, for every
  run without a status of the success set, fails on the run of \<open>always ''failed''\<close>, which
  ends at the first attempt with the failure error.
\<close>

theorem pollForCompletion_budget:
  assumes "truthy (taskId_of config initialResponse)" "endpoints config = Some eps"
      "status eps = Some ep"
    and "req = status_request ep apiKey (taskId_of config initialResponse)"
  shows "MAX_ATTEMPTS = 60 \<and> POLLING_INTERVAL = 2000
    \<and> (\<exists>m \<le> MAX_ATTEMPTS.
          snd (pollForCompletion w initialResponse config apiKey st) = attempts m req st)
    \<and> ((\<forall>n. length (sent st) \<le> n \<and> n < length (sent st) + MAX_ATTEMPTS \<longrightarrow>
            still_pending ep (fetch_reply w n req)) \<longrightarrow>
        pollForCompletion w initialResponse config apiKey st =
          (Inl (Error ''Generation timed out.''), attempts MAX_ATTEMPTS req st))"
proof -
  have loop: "pollForCompletion w initialResponse config apiKey st = poll_loop w ep req 0 st"
    using assms by (simp add: pollForCompletion_loop)
  have "\<exists>m \<le> MAX_ATTEMPTS. snd (poll_loop w ep req 0 st) = attempts m req st"
    using poll_loop_attempts [of 0 w ep req st] by simp
  moreover have "poll_loop w ep req 0 st = (Inl (Error ''Generation timed out.''), attempts MAX_ATTEMPTS req st)"
    if "\<forall>n. length (sent st) \<le> n \<and> n < length (sent st) + MAX_ATTEMPTS \<longrightarrow>
            still_pending ep (fetch_reply w n req)"
    using poll_loop_timeout [of st 0 ep w req] that by simp
  ultimately show ?thesis by (simp add: loop MAX_ATTEMPTS_def POLLING_INTERVAL_def)
qed

theorem pollForCompletion_budget_witness:
  "pollForCompletion (always ''pending'') (Obj [(''id'', Str ''t1'')]) polling_model ''k'' start =
     (Inl (Error ''Generation timed out.''), attempts 60 t1_request start)
   \<and> clock (attempts 60 t1_request start) = 120000
   \<and> length (sent (attempts 60 t1_request start)) = 60"
proof -
  let ?eps = "\<lparr>generate = example_generate, status = Some example_status\<rparr>"
  have t: "truthy (taskId_of polling_model (Obj [(''id'', Str ''t1'')]))" by code_simp
  have q: "t1_request = status_request example_status ''k'' (taskId_of polling_model (Obj [(''id'', Str ''t1'')]))"
    by code_simp
  have e: "endpoints polling_model = Some ?eps" "status ?eps = Some example_status"
    by (simp_all add: polling_model_def)
  have p: "still_pending example_status (status_reply ''pending'')" by code_simp
  have all: "\<forall>n. length (sent start) \<le> n \<and> n < length (sent start) + MAX_ATTEMPTS \<longrightarrow>
      still_pending example_status (fetch_reply (always ''pending'') n t1_request)"
    by (simp add: always_def offline_def p)
  from pollForCompletion_budget [OF t e q, of "always ''pending''" start] all
  have "pollForCompletion (always ''pending'') (Obj [(''id'', Str ''t1'')]) polling_model ''k'' start =
     (Inl (Error ''Generation timed out.''), attempts 60 t1_request start)"
    by simp
  then show ?thesis by (simp add: attempts_def start_def POLLING_INTERVAL_def)
qed

theorem pollForCompletion_budget_counterexample:
  "toLowerCase ''failed'' \<notin> set success_words
   \<and> fst (pollForCompletion (always ''failed'') (Obj [(''id'', Str ''t1'')]) polling_model ''k'' start)
       = Inl (Error ''Generation failed with status: failed'')
   \<and> length (sent (snd (pollForCompletion (always ''failed'') (Obj [(''id'', Str ''t1'')])
        polling_model ''k'' start))) = 1"
  by code_simp

subsection \<open>Text and visual generation\<close>

lemma wrapped_wrap_error: "wrapped config (wrap_error config e)"
  by (auto simp: wrapped_def wrap_error_def)

lemma generateText_generic:
  assumes "provider config \<noteq> ''google_native''"
  shows "generateText w prompt config systemInstruction st =
    (case executeGenericRequest w config [''prompt'' \<mapsto> Str prompt] st of
       (Inl e, st1) \<Rightarrow> (Inl (wrap_error config e), st1)
     | (Inr rawResponse, st1) \<Rightarrow>
         (case resolvePath rawResponse (text_path config) of
            Str t \<Rightarrow> (Inr t, st1)
          | _ \<Rightarrow> (Inl (wrap_error config (Error ''Could not extract text from provider response.'')), st1)))"
  using assms by (simp add: generateText_def text_path_def Let_def split: prod.splits sum.splits)

lemma generateText_errors_wrapped:
  assumes "provider config \<noteq> ''google_native''"
    "fst (generateText w prompt config systemInstruction st) = Inl e"
  shows "wrapped config e"
  using assms(2) unfolding generateText_generic [OF assms(1)]
  by (auto split: prod.splits sum.splits js_value.splits simp: wrapped_wrap_error)

lemma generateText_extracts:
  assumes "provider config \<noteq> ''google_native''"
    "executeGenericRequest w config [''prompt'' \<mapsto> Str prompt] st = (Inr rawResponse, st1)"
  shows "generateText w prompt config systemInstruction st =
    (case resolvePath rawResponse (text_path config) of
       Str t \<Rightarrow> (Inr t, st1)
     | _ \<Rightarrow> (Inl (Error (''['' @ name config @ ''] Error: Could not extract text from provider response.'')), st1))"
  using assms by (simp add: generateText_generic wrap_error_def split: js_value.splits)

lemma executeGenericRequest_sync:
  assumes "endpoints config = Some eps" "status eps = None"
    "fetch_reply w (length (sent st)) (generate_request w config inputs (generate eps)) = Resolves r"
    "ok r" "json_body r = Inr data"
  shows "executeGenericRequest w config inputs st =
    (Inr data, st\<lparr>sent := sent st @ [(clock st, generate_request w config inputs (generate eps))]\<rparr>)"
  using assms by (simp add: executeGenericRequest_def generate_request_def fetch_def Let_def)

lemma attempts_sent: "\<exists>rest. sent (attempts m req st) = sent st @ rest"
  by (simp add: attempts_def)

lemma pollForCompletion_sent:
  "\<exists>rest. sent (snd (pollForCompletion w initialResponse config apiKey st)) = sent st @ rest"
proof -
  have "\<exists>rest. sent (snd (poll_loop w ep req 0 st)) = sent st @ rest" for ep req
    using poll_loop_attempts [of 0 w ep req st] attempts_sent by metis
  then show ?thesis
    by (auto simp: pollForCompletion_def Let_def split: option.splits)
qed

lemma executeGenericRequest_sent:
  assumes "endpoints config = Some eps"
  shows "\<exists>rest. sent (snd (executeGenericRequest w config inputs st)) =
    sent st @ (clock st, generate_request w config inputs (generate eps)) # rest"
proof -
  let ?req = "generate_request w config inputs (generate eps)"
  let ?st1 = "st\<lparr>sent := sent st @ [(clock st, ?req)]\<rparr>"
  have f: "fetch w ?req st = (fetch_reply w (length (sent st)) ?req, ?st1)"
    by (simp add: fetch_def)
  have p: "\<exists>rest. sent (snd (pollForCompletion w data config key ?st1)) = sent st @ (clock st, ?req) # rest"
    for data key
    using pollForCompletion_sent [of w data config key ?st1] by auto
  have e: "executeGenericRequest w config inputs st =
      (case fetch w ?req st of
         (Rejects e, st1) \<Rightarrow> (Inl e, st1)
       | (Resolves response, st1) \<Rightarrow>
           if \<not> ok response
           then (Inl (Error (''Provider Error ('' @ string_of_nat (status_code response)
                              @ ''): '' @ text_body response)), st1)
           else (case json_body response of
                   Inl e \<Rightarrow> (Inl e, st1)
                 | Inr data \<Rightarrow>
                     if status eps \<noteq> None
                     then pollForCompletion w data config
                            (or_empty (localStorage w (''apikey_'' @ provider config))) st1
                     else (Inr data, st1)))"
    using assms
    by (simp add: executeGenericRequest_def generate_request_def Let_def
        split: prod.splits fetch_result.splits sum.splits)
  show ?thesis
    unfolding e f using p
    by (auto split: fetch_result.splits sum.splits)
qed

lemma generateText_state:
  assumes "provider config \<noteq> ''google_native''"
  shows "snd (generateText w prompt config systemInstruction st) =
    snd (executeGenericRequest w config [''prompt'' \<mapsto> Str prompt] st)"
  unfolding generateText_generic [OF assms]
  by (auto split: prod.splits sum.splits js_value.splits)

lemma hello_path: "resolvePath hello_response ''choices[0].message.content'' = Str ''Hello''"
  by code_simp

text \<open>
  Claim C8. For a provider other than the native one, \<^verbatim>\<open>generateText\<close> sends the generic
  request built from the inputs \<^verbatim>\<open>{ prompt }\<close> (and the model's id), looks the result up at the
  path \<^verbatim>\<open>generate.outputMapping['text']\<close>, by default \<^verbatim>\<open>text\<close>, returns it when it is a string
  and fails with the extraction error otherwise; every error of this path carries the
  model's display name in front; and with the mapping \<^verbatim>\<open>choices[0].message.content\<close> and the
  response of the spec's scenario the result is \<^verbatim>\<open>Hello\<close>.
\<close>

theorem generateText_generic_path:
  assumes "provider config \<noteq> ''google_native''"
  shows "(endpoints config = Some eps \<longrightarrow>
        (\<exists>rest. sent (snd (generateText w prompt config systemInstruction st)) =
           sent st @ (clock st, generate_request w config [''prompt'' \<mapsto> Str prompt] (generate eps)) # rest))
    \<and> (executeGenericRequest w config [''prompt'' \<mapsto> Str prompt] st = (Inr rawResponse, st1) \<longrightarrow>
        generateText w prompt config systemInstruction st =
          (case resolvePath rawResponse (text_path config) of
             Str t \<Rightarrow> (Inr t, st1)
           | _ \<Rightarrow> (Inl (Error (''['' @ name config
                      @ ''] Error: Could not extract text from provider response.'')), st1)))
    \<and> (fst (generateText w' prompt config systemInstruction st) = Inl e \<longrightarrow> wrapped config e)
    \<and> (endpoints config = Some eps \<and> status eps = None \<and> outputMapping (generate eps) = Some mapping
        \<and> mapping ''text'' = Some ''choices[0].message.content''
        \<and> fetch_reply w (length (sent st))
             (generate_request w config [''prompt'' \<mapsto> Str prompt] (generate eps)) = Resolves r
        \<and> ok r \<and> json_body r = Inr hello_response \<longrightarrow>
        fst (generateText w prompt config systemInstruction st) = Inr ''Hello'')"
proof (intro conjI impI)
  assume "endpoints config = Some eps"
  then show "\<exists>rest. sent (snd (generateText w prompt config systemInstruction st)) =
           sent st @ (clock st, generate_request w config [''prompt'' \<mapsto> Str prompt] (generate eps)) # rest"
    unfolding generateText_state [OF assms] by (rule executeGenericRequest_sent)
next
  assume "executeGenericRequest w config [''prompt'' \<mapsto> Str prompt] st = (Inr rawResponse, st1)"
  then show "generateText w prompt config systemInstruction st =
          (case resolvePath rawResponse (text_path config) of
             Str t \<Rightarrow> (Inr t, st1)
           | _ \<Rightarrow> (Inl (Error (''['' @ name config
                      @ ''] Error: Could not extract text from provider response.'')), st1))"
    using generateText_extracts [OF assms] by simp
next
  assume "fst (generateText w' prompt config systemInstruction st) = Inl e"
  then show "wrapped config e" using generateText_errors_wrapped [OF assms] by blast
next
  assume a: "endpoints config = Some eps \<and> status eps = None \<and> outputMapping (generate eps) = Some mapping
        \<and> mapping ''text'' = Some ''choices[0].message.content''
        \<and> fetch_reply w (length (sent st))
             (generate_request w config [''prompt'' \<mapsto> Str prompt] (generate eps)) = Resolves r
        \<and> ok r \<and> json_body r = Inr hello_response"
  then have path: "text_path config = ''choices[0].message.content''"
    by (simp add: text_path_def output_path_def)
  from a obtain st1 where "executeGenericRequest w config [''prompt'' \<mapsto> Str prompt] st = (Inr hello_response, st1)"
    using executeGenericRequest_sync [of config eps w st "[''prompt'' \<mapsto> Str prompt]" r hello_response]
    by blast
  then show "fst (generateText w prompt config systemInstruction st) = Inr ''Hello''"
    using generateText_extracts [OF assms] by (simp add: path hello_path)
qed

theorem generateText_generic_path_witness:
  "generateText hello_world ''Hi'' openai_like None start
     = (Inr ''Hello'', \<lparr>clock = 0, sent = [(0, hello_request)]\<rparr>)
   \<and> (\<exists>rest. sent (snd (generateText hello_world ''Hi'' openai_like None start))
         = (0, hello_request) # rest)
   \<and> fst (generateText hello_world ''Hi'' openai_like None start) = Inr ''Hello''
   \<and> fst (generateText failing_world ''Hi'' openai_like None start)
     = Inl (Error ''[GPT X] Error: Provider Error (500): boom'')
   \<and> wrapped openai_like (Error ''[GPT X] Error: Provider Error (500): boom'')"
proof -
  have g: "provider openai_like \<noteq> ''google_native''" by (simp add: openai_like_def)
  have x: "executeGenericRequest hello_world openai_like [''prompt'' \<mapsto> Str ''Hi''] start
      = (Inr hello_response, \<lparr>clock = 0, sent = [(0, hello_request)]\<rparr>)"
    by code_simp
  have f: "fst (generateText failing_world ''Hi'' openai_like None start)
      = Inl (Error ''[GPT X] Error: Provider Error (500): boom'')"
    by code_simp
  have p: "resolvePath hello_response (text_path openai_like) = Str ''Hello''" by code_simp
  have e: "endpoints openai_like = Some openai_endpoints"
    by (simp add: openai_like_def openai_endpoints_def)
  have q: "generate_request hello_world openai_like [''prompt'' \<mapsto> Str ''Hi''] (generate openai_endpoints)
      = hello_request"
    by code_simp
  have m: "status openai_endpoints = None"
    "outputMapping (generate openai_endpoints) = Some [''text'' \<mapsto> ''choices[0].message.content'']"
    by (simp_all add: openai_endpoints_def)
  have r: "fetch_reply hello_world (length (sent start)) hello_request
      = Resolves (json_response 200 hello_response)"
    "ok (json_response 200 hello_response)"
    "json_body (json_response 200 hello_response) = Inr hello_response"
    by (simp_all add: hello_world_def offline_def json_response_def)
  note inst = generateText_generic_path [OF g, where w = hello_world and prompt = "''Hi''"
      and systemInstruction = None and st = start and rawResponse = hello_response
      and ?st1.0 = "\<lparr>clock = 0, sent = [(0, hello_request)]\<rparr>" and w' = failing_world
      and e = "Error ''[GPT X] Error: Provider Error (500): boom''" and eps = openai_endpoints
      and mapping = "[''text'' \<mapsto> ''choices[0].message.content'']"
      and r = "json_response 200 hello_response"]
  from inst x p have 1: "generateText hello_world ''Hi'' openai_like None start
     = (Inr ''Hello'', \<lparr>clock = 0, sent = [(0, hello_request)]\<rparr>)"
    by simp
  from inst e q have 2: "\<exists>rest. sent (snd (generateText hello_world ''Hi'' openai_like None start))
         = (0, hello_request) # rest"
    by (simp add: start_def)
  from inst e q m r have 3: "fst (generateText hello_world ''Hi'' openai_like None start) = Inr ''Hello''"
    by simp
  from inst f have 4: "wrapped openai_like (Error ''[GPT X] Error: Provider Error (500): boom'')"
    by simp
  from 1 2 3 4 f show ?thesis by blast
qed

lemma split_first_here:
  assumes "p \<noteq> []" "hd p \<notin> set before"
  shows "split_first p (before @ p @ after) = Some (before, after)"
  using assms
proof (induction before)
  case Nil
  then show ?case by (cases p) (simp_all add: startsWith_def)
next
  case (Cons x before)
  then have "\<not> startsWith (x # before @ p @ after) p"
    by (cases p) (auto simp: startsWith_def)
  with Cons show ?case by simp
qed

lemma getSubstitution_plain:
  "CHR ''$'' \<notin> set r \<Longrightarrow> getSubstitution matched before after r = r"
  by (induction matched before after r rule: getSubstitution.induct) auto

lemma replace_first_key:
  assumes "CHR ''{'' \<notin> set before" "CHR ''$'' \<notin> set credential"
  shows "replace (before @ ''{{key}}'' @ after) ''{{key}}'' credential = before @ credential @ after"
  using split_first_here [of "''{{key}}''" before after] assms
  by (simp add: replace_def getSubstitution_plain)

lemma split_first_absent: "split_first p s = None \<Longrightarrow> replace s p r = s"
  by (simp add: replace_def)

text \<open>
  Claim C7 says that every occurrence of the key token in a header value is replaced by
  the credential. \<^verbatim>\<open>replace\<close> with a string pattern replaces the first occurrence only: with
  the stored credential \<^verbatim>\<open>K\<close>, the header template with two key tokens separated by a colon
  is sent with the second token left in place. (The URL, a few lines above in the same
  function, is resolved with a global pattern.)
\<close>

theorem headers_only_first_key_replaced:
  "map (\<lambda>entry. req_headers (snd entry))
     (sent (snd (executeGenericRequest (image_world (Str ''AAAA'')) (image_model ''{{key}}:{{key}}'')
        [''prompt'' \<mapsto> Str ''a cat''] start)))
   = [[(''X-Auth'', ''K:{{key}}'')]]"
  by code_simp

lemma split_acc_no_sep: "sep \<notin> set s \<Longrightarrow> split_acc sep cur s = [cur @ s]"
  by (induction s arbitrary: cur) auto

lemma split_no_sep: "sep \<notin> set s \<Longrightarrow> split s sep = [s]"
  by (simp add: split_def split_acc_no_sep)

lemma split_acc_sep:
  "sep \<notin> set a \<Longrightarrow> split_acc sep cur (a @ sep # b) = (cur @ a) # split_acc sep [] b"
  by (induction a arbitrary: cur) auto

lemma split_header_payload:
  assumes "CHR '','' \<notin> set h" "CHR '','' \<notin> set payload"
  shows "at_index (split (h @ '','' @ payload) CHR '','') 1 = Str payload"
  using assms by (simp add: split_def split_acc_sep split_acc_no_sep at_index_def)

lemma generateVisual_generic:
  assumes "provider config \<noteq> ''google_native''"
    "executeGenericRequest w config [''prompt'' \<mapsto> Str prompt] st = (Inr rawResponse, st1)"
  shows "generateVisual w prompt config st =
    (let imageUrl = resolvePath rawResponse (image_path config)
     in if \<not> truthy imageUrl
        then (Inl (wrap_error config (Error ''Could not extract image URL from provider response.'')), st1)
        else
          (case imageUrl of
             Str s \<Rightarrow>
               if startsWith s ''http'' then
                 (case fetch w (image_request s) st1 of
                    (Rejects e, st2) \<Rightarrow> (Inl (wrap_error config e), st2)
                  | (Resolves imgResp, st2) \<Rightarrow>
                      (case blob_data_url imgResp of
                         Inl e \<Rightarrow> (Inl (wrap_error config e), st2)
                       | Inr None \<Rightarrow> (Inl Event, st2)
                       | Inr (Some result) \<Rightarrow> (Inr (at_index (split result CHR '','') 1), st2)))
               else if startsWith s ''data:image'' then (Inr (at_index (split s CHR '','') 1), st1)
               else (Inr (Str s), st1)
           | _ \<Rightarrow> (Inl (wrap_error config (TypeError ''imageUrl.startsWith is not a function'')), st1)))"
  using assms by (simp add: generateVisual_def image_path_def Let_def)

lemma data_image_not_http: "startsWith s ''data:image'' \<Longrightarrow> \<not> startsWith s ''http''"
  by (cases s) (auto simp: startsWith_def)

text \<open>
  Claim C10. On the generic path, when the extracted image value is a non-empty string that
  starts with \<^verbatim>\<open>data:image\<close> and contains no comma, \<^verbatim>\<open>generateVisual\<close> resolves to
  \<^verbatim>\<open>undefined\<close>; no error is raised.
\<close>

theorem generateVisual_data_uri_without_comma:
  assumes "provider config \<noteq> ''google_native''"
    and "executeGenericRequest w config [''prompt'' \<mapsto> Str prompt] st = (Inr rawResponse, st1)"
    and "resolvePath rawResponse (image_path config) = Str s"
    and "s \<noteq> []" "startsWith s ''data:image''" "CHR '','' \<notin> set s"
  shows "generateVisual w prompt config st = (Inr Undefined, st1)"
  using assms
  by (simp add: generateVisual_generic data_image_not_http split_no_sep at_index_def)

theorem generateVisual_data_uri_without_comma_witness:
  "generateVisual (image_world (Str ''data:image/png;base64'')) ''a cat'' (image_model ''{{key}}'') start
     = (Inr Undefined,
        \<lparr>clock = 0,
         sent = [(0, \<lparr>req_url = ''http://localhost:8188/prompt'', req_method = ''POST'',
                       req_headers = [(''X-Auth'', ''K'')],
                       req_body = Some (Obj [(''prompt'', Str ''a cat'')])\<rparr>)]\<rparr>)"
proof -
  let ?w = "image_world (Str ''data:image/png;base64'')"
  let ?st1 = "\<lparr>clock = 0,
         sent = [(0, \<lparr>req_url = ''http://localhost:8188/prompt'', req_method = ''POST'',
                       req_headers = [(''X-Auth'', ''K'')],
                       req_body = Some (Obj [(''prompt'', Str ''a cat'')])\<rparr>)]\<rparr>"
  have g: "provider (image_model ''{{key}}'') \<noteq> ''google_native''" by (simp add: image_model_def)
  have x: "executeGenericRequest ?w (image_model ''{{key}}'') [''prompt'' \<mapsto> Str ''a cat''] start
      = (Inr (Obj [(''image_url'', Str ''data:image/png;base64'')]), ?st1)"
    by code_simp
  have p: "resolvePath (Obj [(''image_url'', Str ''data:image/png;base64'')])
      (image_path (image_model ''{{key}}'')) = Str ''data:image/png;base64''"
    by code_simp
  have s: "''data:image/png;base64'' \<noteq> []" "startsWith ''data:image/png;base64'' ''data:image''"
    "CHR '','' \<notin> set ''data:image/png;base64''"
    by (simp_all add: startsWith_def)
  show ?thesis by (rule generateVisual_data_uri_without_comma [OF g x p s])
qed

text \<open>
  Claim C9 says that every extracted image value is normalised to a base64 string or makes
  the call fail. An address is fetched and the payload of its data URL returned, a data URI
  gives its payload, a bare string is passed through, an empty value fails with the
  extraction error; but the value of the last run, a data URI cut before its comma, makes
  the call resolve to \<^verbatim>\<open>undefined\<close>.
\<close>

theorem generateVisual_normalization_gap:
  "fst (generateVisual (url_world ''https://x/y.png'' ''data:image/png;base64,QUJD'') ''a cat''
          (image_model ''{{key}}'') start) = Inr (Str ''QUJD'')
   \<and> fst (generateVisual (image_world (Str ''data:image/png;base64,AAAA'')) ''a cat''
          (image_model ''{{key}}'') start) = Inr (Str ''AAAA'')
   \<and> fst (generateVisual (image_world (Str ''AAAA'')) ''a cat'' (image_model ''{{key}}'') start)
       = Inr (Str ''AAAA'')
   \<and> fst (generateVisual (image_world (Str [])) ''a cat'' (image_model ''{{key}}'') start)
       = Inl (Error ''[SDXL] Error: Could not extract image URL from provider response.'')
   \<and> fst (generateVisual (image_world (Str ''data:image/webp;base64'')) ''a cat''
          (image_model ''{{key}}'') start) = Inr Undefined"
  by code_simp

text \<open>What the generic path of \<^verbatim>\<open>generateVisual\<close> does with the extracted value in the
  cases the normalisation is meant for.\<close>

lemma generateVisual_normalizes:
  assumes "provider config \<noteq> ''google_native''"
    and "executeGenericRequest w config [''prompt'' \<mapsto> Str prompt] st = (Inr rawResponse, st1)"
  shows "(\<not> truthy (resolvePath rawResponse (image_path config)) \<longrightarrow>
        generateVisual w prompt config st =
          (Inl (Error (''['' @ name config
              @ ''] Error: Could not extract image URL from provider response.'')), st1))
    \<and> (resolvePath rawResponse (image_path config) = Str s \<and> startsWith s ''http''
        \<and> fetch_reply w (length (sent st1)) (image_request s) = Resolves imgResp
        \<and> blob_data_url imgResp = Inr (Some (h @ '','' @ payload))
        \<and> CHR '','' \<notin> set h \<and> CHR '','' \<notin> set payload \<longrightarrow>
        fst (generateVisual w prompt config st) = Inr (Str payload))
    \<and> (resolvePath rawResponse (image_path config) = Str (''data:image'' @ h' @ '','' @ payload')
        \<and> CHR '','' \<notin> set h' \<and> CHR '','' \<notin> set payload' \<longrightarrow>
        generateVisual w prompt config st = (Inr (Str payload'), st1))
    \<and> (resolvePath rawResponse (image_path config) = Str other \<and> other \<noteq> []
        \<and> \<not> startsWith other ''http'' \<and> \<not> startsWith other ''data:image'' \<longrightarrow>
        generateVisual w prompt config st = (Inr (Str other), st1))"
proof (intro conjI impI)
  assume "\<not> truthy (resolvePath rawResponse (image_path config))"
  then show "generateVisual w prompt config st =
          (Inl (Error (''['' @ name config
              @ ''] Error: Could not extract image URL from provider response.'')), st1)"
    using assms by (simp add: generateVisual_generic wrap_error_def)
next
  assume a: "resolvePath rawResponse (image_path config) = Str s \<and> startsWith s ''http''
        \<and> fetch_reply w (length (sent st1)) (image_request s) = Resolves imgResp
        \<and> blob_data_url imgResp = Inr (Some (h @ '','' @ payload))
        \<and> CHR '','' \<notin> set h \<and> CHR '','' \<notin> set payload"
  then have "s \<noteq> []" by (auto simp: startsWith_def)
  with a show "fst (generateVisual w prompt config st) = Inr (Str payload)"
    using assms split_header_payload [of h payload]
    by (simp add: generateVisual_generic fetch_def)
next
  assume a: "resolvePath rawResponse (image_path config) = Str (''data:image'' @ h' @ '','' @ payload')
        \<and> CHR '','' \<notin> set h' \<and> CHR '','' \<notin> set payload'"
  have d: "startsWith (''data:image'' @ h' @ '','' @ payload') ''data:image''"
    by (simp add: startsWith_def)
  have "at_index (split ((''data:image'' @ h') @ '','' @ payload') CHR '','') 1 = Str payload'"
    using a by (intro split_header_payload) simp_all
  then show "generateVisual w prompt config st = (Inr (Str payload'), st1)"
    using assms a d data_image_not_http [OF d]
    by (simp add: generateVisual_generic del: append.simps)
next
  assume "resolvePath rawResponse (image_path config) = Str other \<and> other \<noteq> []
        \<and> \<not> startsWith other ''http'' \<and> \<not> startsWith other ''data:image''"
  then show "generateVisual w prompt config st = (Inr (Str other), st1)"
    using assms by (simp add: generateVisual_generic)
qed

end
